theory Spec2Isabelle
  imports Main
begin

section \<open>Strings\<close>

text \<open>
  The script is JavaScript; its strings are modelled as \<^typ>\<open>string\<close>, read as the UTF-8
  bytes of the text. Everything the modelled functions decide on is ASCII (line prefixes,
  digits, the letters and digits kept by the title normaliser), so the byte view and
  JavaScript's UTF-16 view agree on every test below; the places where a non-ASCII code
  point matters are written out (\<open>norm\<close>, \<open>dot_plus\<close>).
\<close>

text \<open>\<^verbatim>\<open>s.startsWith(p)\<close>, with the rest of the string after the prefix.\<close>

fun strip_prefix :: "string \<Rightarrow> string \<Rightarrow> string option" where
  "strip_prefix [] s = Some s"
| "strip_prefix (p # ps) [] = None"
| "strip_prefix (p # ps) (c # cs) = (if p = c then strip_prefix ps cs else None)"

definition startsWith :: "string \<Rightarrow> string \<Rightarrow> bool" where
  "startsWith s p = (strip_prefix p s \<noteq> None)"

text \<open>\<^verbatim>\<open>s.includes(t)\<close>: \<open>t\<close> occurs in \<open>s\<close> as a contiguous run.\<close>

fun includes_str :: "string \<Rightarrow> string \<Rightarrow> bool" where
  "includes_str [] t = (t = [])"
| "includes_str (c # cs) t = (startsWith (c # cs) t \<or> includes_str cs t)"

section \<open>Thread matcher\<close>

text \<open>
  \<^verbatim>\<open>const norm = s => s.toLowerCase().replace(/[^a-z0-9]/g, '')\<close>.
  Lower-casing maps \<open>A\<close>..\<open>Z\<close> to \<open>a\<close>..\<open>z\<close>; the only other code points whose lower case
  contains an ASCII letter are U+212A (Kelvin sign, to \<open>k\<close>) and U+0130 (capital I with dot,
  to \<open>i\<close> followed by a combining dot, which the filter removes). Every other byte of a
  non-ASCII code point is removed by the filter whatever its case.
\<close>

definition lower_ascii :: "char \<Rightarrow> char" where
  "lower_ascii c =
     (case map_of (zip ''ABCDEFGHIJKLMNOPQRSTUVWXYZ'' ''abcdefghijklmnopqrstuvwxyz'') c of
        Some l \<Rightarrow> l | None \<Rightarrow> c)"

definition is_az09 :: "char \<Rightarrow> bool" where
  "is_az09 c = (c \<in> set ''abcdefghijklmnopqrstuvwxyz0123456789'')"

fun norm :: "string \<Rightarrow> string" where
  "norm [] = []"
| "norm (c # cs) =
     (if startsWith (c # cs) [CHR 0xE2, CHR 0x84, CHR 0xAA] then CHR ''k'' # norm (drop 2 cs)
      else if startsWith (c # cs) [CHR 0xC4, CHR 0xB0] then CHR ''i'' # norm (drop 1 cs)
      else if is_az09 (lower_ascii c) then lower_ascii c # norm cs
      else norm cs)"

text \<open>
  A review thread as \<^verbatim>\<open>getReviewThreads\<close> returns it. The fields \<^verbatim>\<open>path\<close> and
  \<^verbatim>\<open>line\<close> are named \<open>thread_path\<close> and \<open>thread_line\<close> here, since a finding has fields
  of the same names.
\<close>

record user_reply =
  author :: string
  reply_body :: string
  createdAt :: string

record thread =
  threadId :: string
  firstCommentId :: nat
  thread_path :: string
  thread_line :: "int option"
  botTitle :: string
  botBody :: string
  userReplies :: "user_reply list"

text \<open>
  \<^verbatim>\<open>findMatchingThread(threads, title, filePath)\<close>. \<^verbatim>\<open>Array.find\<close> is \<^const>\<open>find\<close>:
  the first element satisfying the test, \<open>None\<close> for \<^verbatim>\<open>undefined\<close>. The caller passes
  \<^verbatim>\<open>null\<close> for \<open>filePath\<close> when it has no path; \<^verbatim>\<open>if (filePath)\<close> is false for
  \<^verbatim>\<open>null\<close> and for the empty string.
\<close>

definition tier1 :: "string \<Rightarrow> thread \<Rightarrow> bool" where
  "tier1 normTitle t = (norm (botTitle t) = normTitle)"

definition tier2 :: "string \<Rightarrow> thread \<Rightarrow> bool" where
  "tier2 normTitle t =
     (let nt = norm (botTitle t) in includes_str nt normTitle \<or> includes_str normTitle nt)"

definition truthy :: "string option \<Rightarrow> bool" where
  "truthy p = (case p of None \<Rightarrow> False | Some s \<Rightarrow> s \<noteq> [])"

definition findMatchingThread :: "thread list \<Rightarrow> string \<Rightarrow> string option \<Rightarrow> thread option" where
  "findMatchingThread threads title filePath =
     (let normTitle = norm title in
      case find (tier1 normTitle) threads of
        Some m \<Rightarrow> Some m
      | None \<Rightarrow>
          (case find (tier2 normTitle) threads of
             Some m \<Rightarrow> Some m
           | None \<Rightarrow>
               (if truthy filePath
                then find (\<lambda>t. Some (thread_path t) = filePath) threads
                else None)))"

section \<open>Diff anchor resolver\<close>

text \<open>\<^verbatim>\<open>diff.split('\n')\<close>: the pieces between newlines; a text without newline is one piece.\<close>

fun split_on :: "char \<Rightarrow> string \<Rightarrow> string list" where
  "split_on d [] = [[]]"
| "split_on d (c # cs) =
     (if c = d then [] # split_on d cs
      else (case split_on d cs of [] \<Rightarrow> [[c]] | l # ls \<Rightarrow> (c # l) # ls))"

definition is_digit :: "char \<Rightarrow> bool" where
  "is_digit c = (c \<in> set ''0123456789'')"

definition digit_val :: "char \<Rightarrow> int" where
  "digit_val c =
     (case map_of (zip ''0123456789'' [0, 1, 2, 3, 4, 5, 6, 7, 8, 9]) c of
        Some v \<Rightarrow> v | None \<Rightarrow> 0)"

text \<open>
  \<^verbatim>\<open>parseInt(s, 10)\<close> on a run of decimal digits, which is all the hunk pattern captures.
  Line numbers are unbounded integers here (JavaScript's numbers are exact up to \<open>2^53\<close>).
\<close>

definition parseInt :: "string \<Rightarrow> int" where
  "parseInt s = foldl (\<lambda>a c. 10 * a + digit_val c) 0 s"

text \<open>
  In a JavaScript pattern \<^verbatim>\<open>.\<close> matches any character but a line terminator: LF, CR,
  U+2028 and U+2029 (the last two are \<open>E2 80 A8\<close> and \<open>E2 80 A9\<close> in UTF-8). \<^verbatim>\<open>(.+)$\<close>
  without the multiline flag must reach the end of the string.
\<close>

definition dot_plus :: "string \<Rightarrow> bool" where
  "dot_plus s =
     (s \<noteq> [] \<and> CHR 0x0A \<notin> set s \<and> CHR 0x0D \<notin> set s
      \<and> \<not> includes_str s [CHR 0xE2, CHR 0x80, CHR 0xA8]
      \<and> \<not> includes_str s [CHR 0xE2, CHR 0x80, CHR 0xA9])"

text \<open>\<^verbatim>\<open>line.match(/^\+\+\+ b\/(.+)$/)\<close>, giving the captured path.\<close>

definition fileMatch :: "string \<Rightarrow> string option" where
  "fileMatch line =
     (case strip_prefix ''+++ b/'' line of
        None \<Rightarrow> None
      | Some rest \<Rightarrow> if dot_plus rest then Some rest else None)"

text \<open>\<^verbatim>\<open>\d+\<close>: the longest run of digits, which must not be empty, and what follows it.\<close>

definition digits1 :: "string \<Rightarrow> (string \<times> string) option" where
  "digits1 s =
     (if takeWhile is_digit s = [] then None
      else Some (takeWhile is_digit s, dropWhile is_digit s))"

text \<open>\<^verbatim>\<open>(?:,\d+)?\<close>: what follows the optional group.\<close>

definition opt_comma_digits :: "string \<Rightarrow> string" where
  "opt_comma_digits s =
     (case strip_prefix '','' s of
        None \<Rightarrow> s
      | Some r \<Rightarrow> (case digits1 r of None \<Rightarrow> s | Some (d, r') \<Rightarrow> r'))"

text \<open>
  \<^verbatim>\<open>line.match(/^@@ -\d+(?:,\d+)? \+(\d+)(?:,\d+)? @@/)\<close>, giving the captured digits
  of the new-side start. Each run of digits is followed by a character that is not a digit,
  so the greedy match is the only one.
\<close>

definition hunkMatch :: "string \<Rightarrow> string option" where
  "hunkMatch line =
     (case strip_prefix ''@@ -'' line of
        None \<Rightarrow> None
      | Some r1 \<Rightarrow>
     (case digits1 r1 of
        None \<Rightarrow> None
      | Some (d1, r2) \<Rightarrow>
     (case strip_prefix '' +'' (opt_comma_digits r2) of
        None \<Rightarrow> None
      | Some r3 \<Rightarrow>
     (case digits1 r3 of
        None \<Rightarrow> None
      | Some (d2, r4) \<Rightarrow>
     (case strip_prefix '' @@'' (opt_comma_digits r4) of
        None \<Rightarrow> None
      | Some r5 \<Rightarrow> Some d2)))))"

text \<open>
  The loop's variables. \<^verbatim>\<open>validLines\<close> is a \<^verbatim>\<open>Map\<close> from path to \<^verbatim>\<open>Set\<close> of line
  numbers; only \<^verbatim>\<open>has\<close>, \<^verbatim>\<open>get\<close> and \<^verbatim>\<open>set\<close> are used on it, so insertion order
  plays no role.
\<close>

record diff_state =
  validLines :: "string \<rightharpoonup> int set"
  currentFile :: "string option"
  newLineNum :: int

datatype error = TypeError | Error string

text \<open>
  \<^verbatim>\<open>newLineNum++; validLines.get(currentFile).add(newLineNum);\<close>
  \<^verbatim>\<open>get\<close> gives \<^verbatim>\<open>undefined\<close> for a key without entry, and calling \<^verbatim>\<open>add\<close> on it
  throws a \<^verbatim>\<open>TypeError\<close>.
\<close>

definition add_anchor :: "diff_state \<Rightarrow> error + diff_state" where
  "add_anchor st =
     (let n = newLineNum st + 1 in
      case currentFile st of
        None \<Rightarrow> Inl TypeError
      | Some f \<Rightarrow>
          (case validLines st f of
             None \<Rightarrow> Inl TypeError
           | Some s \<Rightarrow> Inr (st\<lparr>newLineNum := n, validLines := (validLines st)(f \<mapsto> insert n s)\<rparr>)))"

text \<open>One iteration of the loop over the lines.\<close>

definition diff_step :: "diff_state \<Rightarrow> string \<Rightarrow> error + diff_state" where
  "diff_step st line =
     (case fileMatch line of
        Some f \<Rightarrow>
          Inr (st\<lparr>currentFile := Some f,
                  validLines := (case validLines st f of
                                   None \<Rightarrow> (validLines st)(f \<mapsto> {})
                                 | Some s \<Rightarrow> validLines st)\<rparr>)
      | None \<Rightarrow>
          (case hunkMatch line of
             Some d \<Rightarrow> Inr (st\<lparr>newLineNum := parseInt d - 1\<rparr>)
           | None \<Rightarrow>
               if \<not> truthy (currentFile st) then Inr st
               else if startsWith line ''+'' \<and> \<not> startsWith line ''+++'' then add_anchor st
               else if startsWith line '' '' then add_anchor st
               else Inr st))"

fun diff_loop :: "diff_state \<Rightarrow> string list \<Rightarrow> error + diff_state" where
  "diff_loop st [] = Inr st"
| "diff_loop st (l # ls) =
     (case diff_step st l of Inl e \<Rightarrow> Inl e | Inr st' \<Rightarrow> diff_loop st' ls)"

definition diff_init :: diff_state where
  "diff_init = \<lparr>validLines = Map.empty, currentFile = None, newLineNum = 0\<rparr>"

definition parseDiffForValidLines :: "string \<Rightarrow> error + (string \<rightharpoonup> int set)" where
  "parseDiffForValidLines diff =
     (case diff_loop diff_init (split_on (CHR 0x0A) diff) of
        Inl e \<Rightarrow> Inl e
      | Inr st \<Rightarrow> Inr (validLines st))"

text \<open>\<^verbatim>\<open>fileLines && fileLines.has(line)\<close> on the result: the anchors of a path.\<close>

definition anchors :: "(string \<rightharpoonup> int set) \<Rightarrow> string \<Rightarrow> int set" where
  "anchors m f = (case m f of None \<Rightarrow> {} | Some s \<Rightarrow> s)"

section \<open>Findings and the analysis object\<close>

text \<open>
  The analysis object is what \<^verbatim>\<open>JSON.parse\<close> gives for the model's answer, read at the
  types of the schema the prompt asks for. A field the answer leaves out is \<open>None\<close>
  (\<^verbatim>\<open>undefined\<close>). The priority is kept as the string it is, so that values other than
  \<^verbatim>\<open>must_fix\<close> and \<^verbatim>\<open>other\<close> are inputs of the model.
\<close>

record finding =
  priority :: string
  title :: string
  path :: string
  line :: int
  body :: "string option"
  bump_message :: "string option"

record analysis =
  status :: "string option"
  summary :: "string option"
  findings :: "finding list option"
  persisting :: "finding list option"
  new_findings :: "finding list option"
  resolved :: "string list option"
  accepted_explanations :: "string list option"
  general_notes :: "string list option"

text \<open>\<^verbatim>\<open>xs || []\<close> on an array that may be missing.\<close>

definition or_empty :: "'a list option \<Rightarrow> 'a list" where
  "or_empty xs = (case xs of None \<Rightarrow> [] | Some ys \<Rightarrow> ys)"

text \<open>
  \<^verbatim>\<open>parseAnalysisJSON(rawText)\<close>. The pattern \<^verbatim>\<open>/```json\n([\s\S]*?)\n```/\<close> has a lazy
  middle: the match starts at the first opening fence and ends at the first closing fence
  after it. \<^verbatim>\<open>JSON.parse\<close> belongs to the runtime and is a parameter: it throws
  (\<open>Inl\<close>), or gives a value that is falsy (\<open>Inr None\<close>: \<^verbatim>\<open>null\<close>, \<^verbatim>\<open>false\<close>,
  \<^verbatim>\<open>0\<close>, the empty string) or truthy (\<open>Inr (Some d)\<close>). The function returns
  \<^verbatim>\<open>null\<close> when it finds no block or when parsing throws; \<^verbatim>\<open>main\<close> tests the result
  with \<^verbatim>\<open>!analysisData\<close>, so \<open>None\<close> stands for both \<^verbatim>\<open>null\<close> and a falsy value.
\<close>

fun split_at_first :: "string \<Rightarrow> string \<Rightarrow> (string \<times> string) option" where
  "split_at_first pat [] = (if pat = [] then Some ([], []) else None)"
| "split_at_first pat (c # cs) =
     (case strip_prefix pat (c # cs) of
        Some r \<Rightarrow> Some ([], r)
      | None \<Rightarrow>
          (case split_at_first pat cs of
             None \<Rightarrow> None
           | Some (b, a) \<Rightarrow> Some (c # b, a)))"

definition json_block :: "string \<Rightarrow> string option" where
  "json_block rawText =
     (case split_at_first ''```json\<newline>'' rawText of
        None \<Rightarrow> None
      | Some (before, r) \<Rightarrow>
          (case split_at_first ''\<newline>```'' r of
             None \<Rightarrow> None
           | Some (block, after) \<Rightarrow> Some block))"

definition parseAnalysisJSON ::
  "(string \<Rightarrow> error + analysis option) \<Rightarrow> string \<Rightarrow> analysis option" where
  "parseAnalysisJSON JSON_parse rawText =
     (case json_block rawText of
        None \<Rightarrow> None
      | Some block \<Rightarrow> (case JSON_parse block of Inl e \<Rightarrow> None | Inr v \<Rightarrow> v))"

text \<open>\<^verbatim>\<open>countIssues(data)\<close>.\<close>

record counts =
  highPriorityCount :: nat
  mediumPriorityCount :: nat
  lowPriorityCount :: nat
  totalIssues :: nat
  shouldBlock :: bool

definition all_findings :: "analysis \<Rightarrow> finding list" where
  "all_findings data =
     or_empty (findings data) @ or_empty (persisting data) @ or_empty (new_findings data)"

definition countIssues :: "analysis \<Rightarrow> counts" where
  "countIssues data =
     \<lparr>highPriorityCount = length (filter (\<lambda>f. priority f = ''must_fix'') (all_findings data)),
      mediumPriorityCount = length (filter (\<lambda>f. priority f = ''other'') (all_findings data)),
      lowPriorityCount = 0,
      totalIssues = length (all_findings data),
      shouldBlock = (status data = Some ''BLOCK_MERGE'')\<rparr>"

section \<open>Review body\<close>

text \<open>The non-ASCII characters of the messages, as their UTF-8 bytes.\<close>

definition red_circle :: string where
  "red_circle = [CHR 0xF0, CHR 0x9F, CHR 0x94, CHR 0xB4]"

definition yellow_circle :: string where
  "yellow_circle = [CHR 0xF0, CHR 0x9F, CHR 0x9F, CHR 0xA1]"

definition magnifier :: string where
  "magnifier = [CHR 0xF0, CHR 0x9F, CHR 0x94, CHR 0x8D]"

definition hourglass :: string where
  "hourglass = [CHR 0xE2, CHR 0x8F, CHR 0xB3]"

definition new_button :: string where
  "new_button = [CHR 0xF0, CHR 0x9F, CHR 0x86, CHR 0x95]"

definition check_mark :: string where
  "check_mark = [CHR 0xE2, CHR 0x9C, CHR 0x85]"

definition speech_balloon :: string where
  "speech_balloon = [CHR 0xF0, CHR 0x9F, CHR 0x92, CHR 0xAC]"

definition warning_sign :: string where
  "warning_sign = [CHR 0xE2, CHR 0x9A, CHR 0xA0, CHR 0xEF, CHR 0xB8, CHR 0x8F]"

definition no_entry :: string where
  "no_entry = [CHR 0xF0, CHR 0x9F, CHR 0x9A, CHR 0xAB]"

definition question_mark :: string where
  "question_mark = [CHR 0xE2, CHR 0x9D, CHR 0x93]"

definition robot :: string where
  "robot = [CHR 0xF0, CHR 0x9F, CHR 0xA4, CHR 0x96]"

definition clipboard :: string where
  "clipboard = [CHR 0xF0, CHR 0x9F, CHR 0x93, CHR 0x8B]"

definition em_dash :: string where
  "em_dash = [CHR 0xE2, CHR 0x80, CHR 0x94]"

text \<open>A number inside a template literal: its decimal digits, with a sign when negative.\<close>

function string_of_nat :: "nat \<Rightarrow> string" where
  "string_of_nat n =
     (if n < 10 then [''0123456789'' ! n]
      else string_of_nat (n div 10) @ [''0123456789'' ! (n mod 10)])"
  by pat_completeness auto
termination
  by (relation "measure id") auto

declare string_of_nat.simps [simp del]

definition string_of_int :: "int \<Rightarrow> string" where
  "string_of_int i = (if i < 0 then ''-'' @ string_of_nat (nat (- i)) else string_of_nat (nat i))"

text \<open>\<^verbatim>\<open>s.replace(pat, rep)\<close> with a string pattern: the first occurrence only.\<close>

fun replace_first :: "string \<Rightarrow> string \<Rightarrow> string \<Rightarrow> string" where
  "replace_first pat rep [] = (if pat = [] then rep else [])"
| "replace_first pat rep (c # cs) =
     (case strip_prefix pat (c # cs) of
        Some r \<Rightarrow> rep @ r
      | None \<Rightarrow> c # replace_first pat rep cs)"

definition priorityIcon :: "string \<Rightarrow> string" where
  "priorityIcon p = (if p = ''must_fix'' then red_circle else yellow_circle)"

text \<open>\<^verbatim>\<open>(`${f.path}:${f.line}`)\<close> between backticks and parentheses.\<close>

definition location :: "finding \<Rightarrow> string" where
  "location f = ''(`'' @ path f @ '':'' @ string_of_int (line f) @ ''`)''"

text \<open>\<^verbatim>\<open>f.body || f.title\<close>: the title stands in for a missing or empty body.\<close>

definition body_or_title :: "finding \<Rightarrow> string" where
  "body_or_title f = (if truthy (body f) then (case body f of Some b \<Rightarrow> b | None \<Rightarrow> []) else title f)"

definition unplaceable_entry :: "finding \<Rightarrow> string" where
  "unplaceable_entry f =
     ''### '' @ priorityIcon (priority f) @ '' '' @ title f @ '' '' @ location f
       @ ''\<newline>\<newline>'' @ body_or_title f @ ''\<newline>\<newline>''"

definition unplaceable_section :: "finding list \<Rightarrow> string" where
  "unplaceable_section unplaceable =
     (if unplaceable \<noteq> []
      then ''## '' @ warning_sign @ '' Additional Findings (lines not in diff)\<newline>\<newline>''
             @ concat (map unplaceable_entry unplaceable)
      else [])"

definition bullet :: "string \<Rightarrow> string" where
  "bullet r = ''- '' @ r @ ''\<newline>''"

definition rereview_section :: "analysis \<Rightarrow> string" where
  "rereview_section data =
     (let persistingCount = length (or_empty (persisting data)) in
      if persistingCount > 0
      then ''> '' @ hourglass @ '' **'' @ string_of_nat persistingCount
             @ '' issue(s) from the previous review are still open** '' @ em_dash
             @ '' see the existing inline comments above.\<newline>\<newline>''
      else [])
     @ (if or_empty (new_findings data) \<noteq> []
        then ''## '' @ new_button @ '' New Issues\<newline>\<newline>''
               @ concat (map (\<lambda>f. priorityIcon (priority f) @ '' **'' @ title f @ ''** ''
                                    @ location f @ ''\<newline>'')
                             (or_empty (new_findings data)))
               @ ''\<newline>''
        else [])
     @ (if or_empty (resolved data) \<noteq> []
        then ''## '' @ check_mark @ '' Resolved\<newline>\<newline>''
               @ concat (map bullet (or_empty (resolved data))) @ ''\<newline>''
        else [])
     @ (if or_empty (accepted_explanations data) \<noteq> []
        then ''## '' @ speech_balloon @ '' Accepted Explanations\<newline>\<newline>''
               @ concat (map bullet (or_empty (accepted_explanations data))) @ ''\<newline>''
        else [])"

definition first_review_group :: "analysis \<Rightarrow> string \<times> string \<times> string \<Rightarrow> string" where
  "first_review_group data = (\<lambda>(label, icon, p).
     (let group = filter (\<lambda>f. priority f = p) (or_empty (findings data)) in
      if group \<noteq> []
      then ''## '' @ icon @ '' '' @ label @ ''\<newline>\<newline>''
             @ concat (map (\<lambda>f. ''- **'' @ title f @ ''** '' @ location f @ ''\<newline>'') group)
             @ ''\<newline>''
      else []))"

definition first_review_section :: "analysis \<Rightarrow> string" where
  "first_review_section data =
     concat (map (first_review_group data)
       [(''Must Fix'', red_circle, ''must_fix''), (''Other'', yellow_circle, ''other'')])"

text \<open>
  \<^verbatim>\<open>{ BLOCK_MERGE: .., APPROVED: .. }[data.status] || ..\<close>. A status that names a member
  every object inherits (such as \<^verbatim>\<open>constructor\<close>) is outside this model.
\<close>

definition statusEmoji :: "string option \<Rightarrow> string" where
  "statusEmoji s =
     (if s = Some ''BLOCK_MERGE'' then no_entry
      else if s = Some ''APPROVED'' then check_mark
      else question_mark)"

definition status_line :: "analysis \<Rightarrow> string" where
  "status_line data =
     ''**Status:** '' @ statusEmoji (status data) @ '' ''
       @ replace_first ''_'' '' ''
           (if truthy (status data) then (case status data of Some s \<Rightarrow> s | None \<Rightarrow> [])
            else ''UNKNOWN'')
       @ ''\<newline>\<newline>''"

definition footer :: "string \<Rightarrow> string" where
  "footer modelId =
     ''*'' @ robot @ '' Automated review using AI. Model: '' @ modelId
       @ ''. Human review still required for final approval.*''"

definition buildReviewBody :: "analysis \<Rightarrow> bool \<Rightarrow> string \<Rightarrow> finding list \<Rightarrow> string" where
  "buildReviewBody data isReReview modelId unplaceable =
     (if isReReview
      then ''# '' @ magnifier @ '' PR Standards Check (Re-review)\<newline>\<newline>''
      else ''# '' @ magnifier @ '' PR Standards Check\<newline>\<newline>'')
     @ (if truthy (summary data)
        then (case summary data of Some s \<Rightarrow> s | None \<Rightarrow> []) @ ''\<newline>\<newline>''
        else [])
     @ (if isReReview then rereview_section data else first_review_section data)
     @ unplaceable_section unplaceable
     @ status_line data
     @ ''> Detailed findings are posted as inline comments on the relevant lines.\<newline>\<newline>''
     @ footer modelId"

section \<open>Remote calls\<close>

text \<open>
  Every call the script makes to the hosting platform (through the \<^verbatim>\<open>gh\<close> command) is an
  effect. A run is modelled by the list of the calls it attempts, in order. Whether a call
  fails is decided outside the script: the parameter \<open>R\<close> gives, for the calls attempted
  so far and the next one, the message of the error it throws, or \<open>None\<close> when it
  succeeds.
\<close>

record inline_comment =
  comment_path :: string
  comment_line :: int
  comment_side :: string
  comment_body :: string

datatype effect =
    PostReview string "inline_comment list"
  | ReplyToReviewComment nat string
  | ResolveReviewThread string
  | PostComment string
  | CreateLabel
  | AddLabel
  | RemoveLabel

type_synonym remote = "effect list \<Rightarrow> effect \<Rightarrow> string option"

text \<open>A call whose error the caller does not catch.\<close>

definition call :: "remote \<Rightarrow> effect \<Rightarrow> effect list \<Rightarrow> effect list \<times> (error + unit)" where
  "call R e tr = (tr @ [e], (case R tr e of None \<Rightarrow> Inr () | Some msg \<Rightarrow> Inl (Error msg)))"

text \<open>
  \<^verbatim>\<open>postComment(comment, modelId)\<close>; every caller modelled here passes no model id, so
  the placeholder is replaced by \<^verbatim>\<open>Unknown\<close>.
\<close>

definition postComment :: "remote \<Rightarrow> string \<Rightarrow> effect list \<Rightarrow> effect list \<times> (error + unit)" where
  "postComment R comment tr =
     call R (PostComment (replace_first ''[Model ID will be shown]'' ''Unknown'' comment)) tr"

definition postGeneralNotes ::
  "remote \<Rightarrow> string list \<Rightarrow> string \<Rightarrow> effect list \<Rightarrow> effect list \<times> (error + unit)" where
  "postGeneralNotes R notes modelId tr =
     (if notes = [] then (tr, Inr ())
      else postComment R
             (''## '' @ clipboard @ '' PR Standards '' @ em_dash @ '' General Notes\<newline>\<newline>''
                @ concat (map bullet notes) @ ''\<newline>'' @ footer modelId) tr)"

text \<open>The settings read from the environment that the modelled part uses.\<close>

record config =
  PR_NUMBER :: string
  FAILURE_MODE :: string

definition postSuccessComment ::
  "remote \<Rightarrow> config \<Rightarrow> string \<Rightarrow> effect list \<Rightarrow> effect list \<times> (error + unit)" where
  "postSuccessComment R cfg modelId tr =
     postComment R
       (''# '' @ check_mark @ '' PR Standards Check Passed\<newline>\<newline>''
          @ ''PR #'' @ PR_NUMBER cfg @ '' meets all team standards. No issues found.\<newline>\<newline>''
          @ footer modelId) tr"

text \<open>
  \<^verbatim>\<open>addNoncompliantLabel()\<close>: two calls inside one \<^verbatim>\<open>try\<close>; an error is logged, and
  the second call is not made when the first one fails.
\<close>

definition addNoncompliantLabel :: "remote \<Rightarrow> effect list \<Rightarrow> effect list" where
  "addNoncompliantLabel R tr =
     (case R tr CreateLabel of
        None \<Rightarrow> tr @ [CreateLabel, AddLabel]
      | Some msg \<Rightarrow> tr @ [CreateLabel])"

section \<open>Posting the review\<close>

definition inline_of :: "finding \<Rightarrow> inline_comment" where
  "inline_of f =
     \<lparr>comment_path = path f, comment_line = line f, comment_side = ''RIGHT'',
      comment_body = priorityIcon (priority f) @ '' **'' @ title f @ ''**\<newline>\<newline>''
                       @ (case body f of None \<Rightarrow> ''undefined'' | Some b \<Rightarrow> b)\<rparr>"

text \<open>\<^verbatim>\<open>fileLines && fileLines.has(finding.line)\<close>.\<close>

definition placeable :: "(string \<rightharpoonup> int set) \<Rightarrow> finding \<Rightarrow> bool" where
  "placeable vl f =
     (case vl (path f) of None \<Rightarrow> False | Some fileLines \<Rightarrow> line f \<in> fileLines)"

text \<open>The loop that sorts the findings into inline comments and unplaceable findings.\<close>

fun place_findings ::
  "(string \<rightharpoonup> int set) \<Rightarrow> finding list \<Rightarrow> inline_comment list \<times> finding list" where
  "place_findings vl [] = ([], [])"
| "place_findings vl (f # fs) =
     (case place_findings vl fs of
        (inlineComments, unplaceable) \<Rightarrow>
          if placeable vl f then (inline_of f # inlineComments, unplaceable)
          else (inlineComments, f # unplaceable))"

definition bump_body :: "finding \<Rightarrow> string" where
  "bump_body f =
     (if truthy (bump_message f)
      then priorityIcon (priority f) @ '' **Still open.** ''
             @ (case bump_message f of Some m \<Rightarrow> m | None \<Rightarrow> [])
      else priorityIcon (priority f) @ '' **Still open.** This issue has not been resolved yet.'')"

text \<open>
  The three loops of a re-review. \<^verbatim>\<open>replyToReviewComment\<close> and
  \<^verbatim>\<open>resolveReviewThread\<close> catch and log their own errors, so each loop goes on whatever
  the calls do.
\<close>

definition bump_effects :: "thread list \<Rightarrow> finding \<Rightarrow> effect list" where
  "bump_effects reviewThreads f =
     (case findMatchingThread reviewThreads (title f) (Some (path f)) of
        Some t \<Rightarrow> [ReplyToReviewComment (firstCommentId t) (bump_body f)]
      | None \<Rightarrow> [])"

definition resolve_effects :: "thread list \<Rightarrow> string \<Rightarrow> effect list" where
  "resolve_effects reviewThreads t_title =
     (case findMatchingThread reviewThreads t_title None of
        Some t \<Rightarrow> [ResolveReviewThread (threadId t)]
      | None \<Rightarrow> [])"

definition accept_effects :: "thread list \<Rightarrow> string \<Rightarrow> effect list" where
  "accept_effects reviewThreads t_title =
     (case findMatchingThread reviewThreads t_title None of
        Some t \<Rightarrow>
          [ReplyToReviewComment (firstCommentId t)
             (check_mark @ '' Explanation accepted. Resolving this comment.''),
           ResolveReviewThread (threadId t)]
      | None \<Rightarrow> [])"

definition thread_effects :: "analysis \<Rightarrow> thread list \<Rightarrow> effect list" where
  "thread_effects data reviewThreads =
     concat (map (bump_effects reviewThreads) (or_empty (persisting data)))
     @ concat (map (resolve_effects reviewThreads) (or_empty (resolved data)))
     @ concat (map (accept_effects reviewThreads) (or_empty (accepted_explanations data)))"

definition findingsForInline :: "analysis \<Rightarrow> bool \<Rightarrow> finding list" where
  "findingsForInline data isReReview =
     (if isReReview then or_empty (new_findings data) else or_empty (findings data))"

text \<open>
  \<^verbatim>\<open>postReview(data, diff, modelId, isReReview, reviewThreads)\<close>: the review with its
  body and inline comments is submitted first; an error of that call is thrown on. Only
  then, and only on a re-review, come the replies and resolutions.
\<close>

definition postReview ::
  "remote \<Rightarrow> analysis \<Rightarrow> string \<Rightarrow> string \<Rightarrow> bool \<Rightarrow> thread list \<Rightarrow> effect list
     \<Rightarrow> effect list \<times> (error + unit)" where
  "postReview R data diff modelId isReReview reviewThreads tr =
     (case parseDiffForValidLines diff of
        Inl e \<Rightarrow> (tr, Inl e)
      | Inr vl \<Rightarrow>
          (case place_findings vl (findingsForInline data isReReview) of
             (inlineComments, unplaceable) \<Rightarrow>
               (case call R (PostReview (buildReviewBody data isReReview modelId unplaceable)
                                        inlineComments) tr of
                  (tr1, Inl e) \<Rightarrow> (tr1, Inl e)
                | (tr1, Inr u) \<Rightarrow>
                    if \<not> isReReview then (tr1, Inr ())
                    else (tr1 @ thread_effects data reviewThreads, Inr ()))))"

section \<open>The run\<close>

text \<open>
  \<^verbatim>\<open>main\<close> from the point where the threads, the model id, the diff and the model's
  answer have been fetched; these are its inputs. \<open>Exited n\<close> is \<^verbatim>\<open>process.exit(n)\<close>,
  \<open>Completed\<close> is \<^verbatim>\<open>main\<close> returning.
\<close>

datatype outcome = Completed | Exited nat

definition message :: "error \<Rightarrow> string" where
  "message e =
     (case e of
        Error m \<Rightarrow> m
      | TypeError \<Rightarrow> ''Cannot read properties of undefined (reading 'add')'')"

text \<open>The body of the \<^verbatim>\<open>try\<close> block.\<close>

definition main_try ::
  "remote \<Rightarrow> config \<Rightarrow> (string \<Rightarrow> error + analysis option) \<Rightarrow> string \<Rightarrow> string \<Rightarrow> string
     \<Rightarrow> thread list \<Rightarrow> effect list \<times> (error + outcome)" where
  "main_try R cfg JSON_parse rawAnalysis diff modelId reviewThreads =
     (case parseAnalysisJSON JSON_parse rawAnalysis of
        None \<Rightarrow> ([], Inl (Error ''Analysis did not return a parseable JSON response''))
      | Some analysisData \<Rightarrow>
     (case postReview R analysisData diff modelId (reviewThreads \<noteq> []) reviewThreads [] of
        (tr1, Inl e) \<Rightarrow> (tr1, Inl e)
      | (tr1, Inr u) \<Rightarrow>
     (case postGeneralNotes R (or_empty (general_notes analysisData)) modelId tr1 of
        (tr2, Inl e) \<Rightarrow> (tr2, Inl e)
      | (tr2, Inr u) \<Rightarrow>
          (let c = countIssues analysisData in
           if totalIssues c > 0 \<or> shouldBlock c
           then (if FAILURE_MODE cfg = ''label''
                 then (addNoncompliantLabel R tr2, Inr Completed)
                 else (tr2, Inr (Exited 1)))
           else (case postSuccessComment R cfg modelId tr2 of
                   (tr3, Inl e) \<Rightarrow> (tr3, Inl e)
                 | (tr3, Inr u) \<Rightarrow> (tr3 @ [RemoveLabel], Inr Completed))))))"

text \<open>The notice posted from the \<^verbatim>\<open>catch\<close> block.\<close>

definition fallback_notice :: "string \<Rightarrow> string" where
  "fallback_notice msg =
     ''## PR Standards Check\<newline>\<newline>''
     @ warning_sign
     @ '' The automated PR standards check encountered an error and could not complete.\<newline>\<newline>''
     @ ''Please ensure a human reviewer checks this PR against our [team standards](.github/PR_STANDARDS.md).\<newline>\<newline>''
     @ ''Error: '' @ msg"

definition main ::
  "remote \<Rightarrow> config \<Rightarrow> (string \<Rightarrow> error + analysis option) \<Rightarrow> string \<Rightarrow> string \<Rightarrow> string
     \<Rightarrow> thread list \<Rightarrow> effect list \<times> outcome" where
  "main R cfg JSON_parse rawAnalysis diff modelId reviewThreads =
     (case main_try R cfg JSON_parse rawAnalysis diff modelId reviewThreads of
        (tr, Inr out) \<Rightarrow> (tr, out)
      | (tr, Inl e) \<Rightarrow> (fst (postComment R (fallback_notice (message e)) tr), Exited 1))"

section \<open>Auxiliary notions for the properties\<close>

text \<open>The replies and resolutions on existing threads, as opposed to every other effect.\<close>

fun is_thread_effect :: "effect \<Rightarrow> bool" where
  "is_thread_effect (ReplyToReviewComment c b) = True"
| "is_thread_effect (ResolveReviewThread t) = True"
| "is_thread_effect e = False"

text \<open>A platform on which every call succeeds, and a parser that gives a fixed object.\<close>

definition always_ok :: remote where
  "always_ok tr e = None"

definition parse_to :: "analysis \<Rightarrow> string \<Rightarrow> error + analysis option" where
  "parse_to d block = Inr (Some d)"

text \<open>
  The effects of \<^verbatim>\<open>postGeneralNotes\<close> and of \<^verbatim>\<open>postSuccessComment\<close>: none or one comment,
  and one comment. Which calls are attempted does not depend on the platform.
\<close>

definition notes_effects :: "string list \<Rightarrow> string \<Rightarrow> effect list" where
  "notes_effects notes modelId = fst (postGeneralNotes always_ok notes modelId [])"

definition success_effects :: "config \<Rightarrow> string \<Rightarrow> effect list" where
  "success_effects cfg modelId = fst (postSuccessComment always_ok cfg modelId [])"

text \<open>The effects on the label of the pull request.\<close>

fun is_label_effect :: "effect \<Rightarrow> bool" where
  "is_label_effect CreateLabel = True"
| "is_label_effect AddLabel = True"
| "is_label_effect RemoveLabel = True"
| "is_label_effect e = False"

text \<open>The invariant of the diff loop: the current file, once set, has its set in the map.\<close>

definition diff_inv :: "diff_state \<Rightarrow> bool" where
  "diff_inv st = (case currentFile st of None \<Rightarrow> True | Some f \<Rightarrow> validLines st f \<noteq> None)"

text \<open>Threads used as concrete inputs below.\<close>

definition thread_inj :: thread where
  "thread_inj =
     \<lparr>threadId = ''T_inj'', firstCommentId = 101, thread_path = ''src/app.ts'',
      thread_line = Some 7, botTitle = ''Injection'', botBody = [], userReplies = []\<rparr>"

definition thread_sql :: thread where
  "thread_sql =
     \<lparr>threadId = ''T_sql'', firstCommentId = 102, thread_path = ''src/db.ts'',
      thread_line = Some 42, botTitle = ''SQL Injection Risk'', botBody = [], userReplies = []\<rparr>"

definition thread_marks :: thread where
  "thread_marks =
     \<lparr>threadId = ''T_marks'', firstCommentId = 103, thread_path = ''src/b.ts'',
      thread_line = Some 9, botTitle = ''???'', botBody = [], userReplies = []\<rparr>"

text \<open>Findings, analysis objects, diffs and settings used as concrete inputs below.\<close>

definition f_other :: finding where
  "f_other =
     \<lparr>priority = ''other'', title = ''Use logger'', path = ''src/a.ts'', line = 3,
      body = Some ''Use the logger instead of console.log.'', bump_message = None\<rparr>"


definition f_crit :: finding where
  "f_crit =
     \<lparr>priority = ''critical'', title = ''Hardcoded secret'', path = ''src/a.ts'', line = 3,
      body = Some ''Move the key to the environment.'', bump_message = None\<rparr>"

definition f_far :: finding where
  "f_far =
     \<lparr>priority = ''must_fix'', title = ''Unchecked input'', path = ''src/a.ts'', line = 999,
      body = Some ''Validate the request body.'', bump_message = None\<rparr>"

definition f_sql :: finding where
  "f_sql =
     \<lparr>priority = ''must_fix'', title = ''Sql injection risk!'', path = ''src/db.ts'', line = 42,
      body = Some ''Use a prepared statement.'', bump_message = None\<rparr>"

definition no_fields :: analysis where
  "no_fields =
     \<lparr>status = None, summary = None, findings = None, persisting = None, new_findings = None,
      resolved = None, accepted_explanations = None, general_notes = None\<rparr>"

definition d_other :: analysis where
  "d_other = no_fields\<lparr>status := Some ''APPROVED'', findings := Some [f_other]\<rparr>"


definition d_crit :: analysis where
  "d_crit = no_fields\<lparr>status := Some ''APPROVED'', findings := Some [f_crit]\<rparr>"

definition d_far :: analysis where
  "d_far = no_fields\<lparr>status := Some ''BLOCK_MERGE'', findings := Some [f_far]\<rparr>"

definition d_dup :: analysis where
  "d_dup = no_fields\<lparr>status := Some ''BLOCK_MERGE'', new_findings := Some [f_sql]\<rparr>"

definition d_pers :: analysis where
  "d_pers = no_fields\<lparr>status := Some ''BLOCK_MERGE'', persisting := Some [f_sql],
                       resolved := Some [''Injection'']\<rparr>"

definition f_sql_crit :: finding where
  "f_sql_crit = f_sql\<lparr>priority := ''critical''\<rparr>"

definition d_pers_crit :: analysis where
  "d_pers_crit = no_fields\<lparr>status := Some ''APPROVED'', persisting := Some [f_sql_crit]\<rparr>"

definition d_far_ok :: analysis where
  "d_far_ok = no_fields\<lparr>status := Some ''APPROVED'', findings := Some [f_far]\<rparr>"

definition f_gone :: finding where
  "f_gone =
     \<lparr>priority = ''must_fix'', title = ''Race condition'', path = ''src/a.ts'', line = 999,
      body = Some ''Guard the write.'', bump_message = None\<rparr>"

definition d_gone :: analysis where
  "d_gone = no_fields\<lparr>status := Some ''BLOCK_MERGE'', persisting := Some [f_gone]\<rparr>"

definition diff_a :: string where
  "diff_a = ''+++ b/src/a.ts\<newline>@@ -1,2 +1,3 @@\<newline> first\<newline> second\<newline>+third''"

definition diff_db :: string where
  "diff_db = ''+++ b/src/db.ts\<newline>@@ -41,1 +41,2 @@\<newline> const q = build();\<newline>+run(q + input);''"

definition raw_block :: string where
  "raw_block = ''```json\<newline>{}\<newline>```''"

definition cfg_fail :: config where
  "cfg_fail = \<lparr>PR_NUMBER = ''7'', FAILURE_MODE = ''fail''\<rparr>"

definition cfg_label :: config where
  "cfg_label = \<lparr>PR_NUMBER = ''7'', FAILURE_MODE = ''label''\<rparr>"

text \<open>
  The call that submits the review, given the anchors of the diff: the body carries the
  findings that found no anchor, the inline comments are those of the findings that did.
\<close>

definition review_effect :: "analysis \<Rightarrow> (string \<rightharpoonup> int set) \<Rightarrow> string \<Rightarrow> bool \<Rightarrow> effect" where
  "review_effect data vl modelId isReReview =
     PostReview
       (buildReviewBody data isReReview modelId
          (filter (\<lambda>f. \<not> placeable vl f) (findingsForInline data isReReview)))
       (map inline_of (filter (placeable vl) (findingsForInline data isReReview)))"

section \<open>Properties of the string functions\<close>

lemma strip_prefix_Some: "strip_prefix p s = Some r \<longleftrightarrow> s = p @ r"
  by (induction p s rule: strip_prefix.induct) auto

lemma startsWith_iff: "startsWith s p \<longleftrightarrow> (\<exists>r. s = p @ r)"
proof -
  have "strip_prefix p s \<noteq> None \<longleftrightarrow> (\<exists>r. strip_prefix p s = Some r)" by auto
  then show ?thesis by (simp add: startsWith_def strip_prefix_Some)
qed

lemma includes_str_Nil: "includes_str s []"
  by (cases s) (simp_all add: startsWith_def)

text \<open>\<open>includes_str\<close> is the substring relation.\<close>

lemma includes_str_iff: "includes_str s t \<longleftrightarrow> (\<exists>p q. s = p @ t @ q)"
proof (induction s)
  case Nil
  then show ?case by auto
next
  case (Cons c cs)
  show ?case
  proof
    assume "includes_str (c # cs) t"
    then consider "startsWith (c # cs) t" | "includes_str cs t" by auto
    then show "\<exists>p q. c # cs = p @ t @ q"
    proof cases
      case 1
      then obtain r where "c # cs = t @ r" by (auto simp: startsWith_iff)
      then have "c # cs = [] @ t @ r" by simp
      then show ?thesis by blast
    next
      case 2
      then obtain p q where "cs = p @ t @ q" using Cons.IH by auto
      then have "c # cs = (c # p) @ t @ q" by simp
      then show ?thesis by blast
    qed
  next
    assume "\<exists>p q. c # cs = p @ t @ q"
    then obtain p q where pq: "c # cs = p @ t @ q" by auto
    show "includes_str (c # cs) t"
    proof (cases p)
      case Nil
      with pq have "startsWith (c # cs) t" by (auto simp: startsWith_iff)
      then show ?thesis by simp
    next
      case (Cons a p')
      with pq have "cs = p' @ t @ q" by simp
      then have "includes_str cs t" using Cons.IH by blast
      then show ?thesis by simp
    qed
  qed
qed

lemma split_on_not_Nil: "split_on d s \<noteq> []"
  by (induction s) (auto split: list.splits)

lemma split_on_append: "split_on d (a @ d # b) = split_on d a @ split_on d b"
  by (induction a) (auto simp: split_on_not_Nil split: list.splits)

lemma concat_map_mem: "x \<in> set xs \<Longrightarrow> \<exists>p q. concat (map g xs) = p @ g x @ q"
proof -
  assume "x \<in> set xs"
  then obtain ys zs where "xs = ys @ x # zs" by (auto simp: in_set_conv_decomp)
  then have "concat (map g xs) = concat (map g ys) @ g x @ concat (map g zs)" by simp
  then show ?thesis by blast
qed

section \<open>Properties of the thread matcher\<close>

lemma tier1_eq: "tier1 n = (\<lambda>u. norm (botTitle u) = n)"
  by (rule ext) (simp add: tier1_def)

lemma tier2_empty: "tier2 [] t"
  by (simp add: tier2_def Let_def includes_str_Nil)

lemma find_tier2_empty: "find (tier2 []) (t # ts) = Some t"
  by (simp add: tier2_empty)

lemma findMatchingThread_cases:
  "findMatchingThread threads ttl filePath =
     (case find (tier1 (norm ttl)) threads of
        Some m \<Rightarrow> Some m
      | None \<Rightarrow>
          (case find (tier2 (norm ttl)) threads of
             Some m \<Rightarrow> Some m
           | None \<Rightarrow>
               (if truthy filePath
                then find (\<lambda>t. Some (thread_path t) = filePath) threads
                else None)))"
  by (simp add: findMatchingThread_def Let_def)

text \<open>
  Claim C6. If some thread's normalised title equals the finding's normalised title, the
  matcher returns the first such thread, whatever substring or same-path matches exist
  besides. A thread that is returned without being a title match (exact or substring) was
  found by the path fallback: then no thread is a title match, a path was supplied, and the
  thread is the first one on that path.
\<close>

theorem findMatchingThread_exact_precedence:
  "((\<exists>t \<in> set threads. norm (botTitle t) = norm ttl) \<longrightarrow>
      (\<exists>m. findMatchingThread threads ttl filePath = Some m
           \<and> find (\<lambda>t. norm (botTitle t) = norm ttl) threads = Some m
           \<and> norm (botTitle m) = norm ttl))
   \<and> (findMatchingThread threads ttl filePath = Some m'
        \<and> \<not> tier1 (norm ttl) m' \<and> \<not> tier2 (norm ttl) m' \<longrightarrow>
      (\<forall>t \<in> set threads. \<not> tier1 (norm ttl) t \<and> \<not> tier2 (norm ttl) t)
        \<and> truthy filePath
        \<and> find (\<lambda>t. Some (thread_path t) = filePath) threads = Some m')
   \<and> ((\<forall>t \<in> set threads. \<not> tier1 (norm ttl) t \<and> \<not> tier2 (norm ttl) t) \<longrightarrow>
      findMatchingThread threads ttl filePath =
        (if truthy filePath then find (\<lambda>t. Some (thread_path t) = filePath) threads else None))"
proof -
  have exact: "\<exists>m. findMatchingThread threads ttl filePath = Some m
           \<and> find (\<lambda>t. norm (botTitle t) = norm ttl) threads = Some m
           \<and> norm (botTitle m) = norm ttl"
    if "\<exists>t \<in> set threads. norm (botTitle t) = norm ttl"
  proof -
    from that obtain m where m: "find (\<lambda>t. norm (botTitle t) = norm ttl) threads = Some m"
      by (cases "find (\<lambda>t. norm (botTitle t) = norm ttl) threads") (auto simp: find_None_iff)
    then have "norm (botTitle m) = norm ttl" by (auto simp: find_Some_iff)
    moreover have "findMatchingThread threads ttl filePath = Some m"
      by (simp add: findMatchingThread_cases tier1_eq m)
    ultimately show ?thesis using m by blast
  qed
  have only_when: "(\<forall>t \<in> set threads. \<not> tier1 (norm ttl) t \<and> \<not> tier2 (norm ttl) t)
        \<and> truthy filePath
        \<and> find (\<lambda>t. Some (thread_path t) = filePath) threads = Some m'"
    if a: "findMatchingThread threads ttl filePath = Some m'
        \<and> \<not> tier1 (norm ttl) m' \<and> \<not> tier2 (norm ttl) m'"
  proof -
    have n1: "find (tier1 (norm ttl)) threads = None"
    proof (cases "find (tier1 (norm ttl)) threads")
      case (Some x)
      then have "tier1 (norm ttl) x" by (auto simp: find_Some_iff)
      moreover from Some a have "x = m'" by (simp add: findMatchingThread_cases)
      ultimately show ?thesis using a by simp
    qed simp
    have n2: "find (tier2 (norm ttl)) threads = None"
    proof (cases "find (tier2 (norm ttl)) threads")
      case (Some x)
      then have "tier2 (norm ttl) x" by (auto simp: find_Some_iff)
      moreover from Some a n1 have "x = m'" by (simp add: findMatchingThread_cases)
      ultimately show ?thesis using a by simp
    qed simp
    from n1 n2 have "\<forall>t \<in> set threads. \<not> tier1 (norm ttl) t \<and> \<not> tier2 (norm ttl) t"
      by (simp add: find_None_iff)
    moreover from a n1 n2 have "truthy filePath"
      by (simp add: findMatchingThread_cases split: if_splits)
    moreover from a n1 n2 have "find (\<lambda>t. Some (thread_path t) = filePath) threads = Some m'"
      by (simp add: findMatchingThread_cases split: if_splits)
    ultimately show ?thesis by blast
  qed
  have fallback: "findMatchingThread threads ttl filePath =
        (if truthy filePath then find (\<lambda>t. Some (thread_path t) = filePath) threads else None)"
    if "\<forall>t \<in> set threads. \<not> tier1 (norm ttl) t \<and> \<not> tier2 (norm ttl) t"
  proof -
    from that have "find (tier1 (norm ttl)) threads = None"
      "find (tier2 (norm ttl)) threads = None"
      by (simp_all add: find_None_iff)
    then show ?thesis by (simp add: findMatchingThread_cases)
  qed
  from exact only_when fallback show ?thesis by blast
qed

text \<open>
  A run of the theorem for C6: the second thread is the exact match and is returned although
  the first thread is a substring match on the very path of the finding; a title that
  matches no thread falls back to the first thread on that path.
\<close>

theorem findMatchingThread_exact_precedence_witness:
  "(\<exists>t \<in> set [thread_inj, thread_sql]. norm (botTitle t) = norm ''Sql injection risk!'')
   \<and> tier2 (norm ''Sql injection risk!'') thread_inj
   \<and> findMatchingThread [thread_inj, thread_sql] ''Sql injection risk!'' (Some ''src/app.ts'')
       = Some thread_sql
   \<and> \<not> tier1 (norm ''Unused import'') thread_inj
   \<and> \<not> tier2 (norm ''Unused import'') thread_inj
   \<and> \<not> tier1 (norm ''Unused import'') thread_sql
   \<and> \<not> tier2 (norm ''Unused import'') thread_sql
   \<and> findMatchingThread [thread_inj, thread_sql] ''Unused import'' (Some ''src/app.ts'')
       = Some thread_inj"
proof -
  have exact: "\<exists>t \<in> set [thread_inj, thread_sql]. norm (botTitle t) = norm ''Sql injection risk!''"
    by code_simp
  have looser: "tier2 (norm ''Sql injection risk!'') thread_inj"
    by code_simp
  have first_exact:
    "find (\<lambda>t. norm (botTitle t) = norm ''Sql injection risk!'') [thread_inj, thread_sql]
       = Some thread_sql"
    by code_simp
  have none: "\<forall>t \<in> set [thread_inj, thread_sql].
         \<not> tier1 (norm ''Unused import'') t \<and> \<not> tier2 (norm ''Unused import'') t"
    by code_simp
  have on_path:
    "(if truthy (Some ''src/app.ts'')
      then find (\<lambda>t. Some (thread_path t) = Some ''src/app.ts'') [thread_inj, thread_sql]
      else None) = Some thread_inj"
    by code_simp
  note T1 = findMatchingThread_exact_precedence
          [where threads = "[thread_inj, thread_sql]" and ttl = "''Sql injection risk!''"
             and filePath = "Some ''src/app.ts''", THEN conjunct1, THEN mp, OF exact]
  then obtain m where m: "findMatchingThread [thread_inj, thread_sql] ''Sql injection risk!''
              (Some ''src/app.ts'') = Some m"
     "find (\<lambda>t. norm (botTitle t) = norm ''Sql injection risk!'') [thread_inj, thread_sql] = Some m"
    by (elim exE conjE)
  from m(2) have "m = thread_sql" unfolding first_exact by (rule option.inject[THEN iffD1, symmetric])
  with m(1) have r1: "findMatchingThread [thread_inj, thread_sql] ''Sql injection risk!''
              (Some ''src/app.ts'') = Some thread_sql"
    by (simp only:)
  note T2 = findMatchingThread_exact_precedence
          [where threads = "[thread_inj, thread_sql]" and ttl = "''Unused import''"
             and filePath = "Some ''src/app.ts''", THEN conjunct2, THEN conjunct2, THEN mp, OF none]
  have r2: "findMatchingThread [thread_inj, thread_sql] ''Unused import''
              (Some ''src/app.ts'') = Some thread_inj"
    using T2 unfolding on_path .
  have each: "\<not> tier1 (norm ''Unused import'') thread_inj"
    "\<not> tier2 (norm ''Unused import'') thread_inj"
    "\<not> tier1 (norm ''Unused import'') thread_sql"
    "\<not> tier2 (norm ''Unused import'') thread_sql"
  proof -
    have i: "thread_inj \<in> set [thread_inj, thread_sql]"
      by (simp only: list.set insert_iff simp_thms)
    have s: "thread_sql \<in> set [thread_inj, thread_sql]"
      by (simp only: list.set insert_iff simp_thms)
    from bspec[OF none i] show "\<not> tier1 (norm ''Unused import'') thread_inj"
      "\<not> tier2 (norm ''Unused import'') thread_inj" by (rule conjunct1, rule conjunct2)
    from bspec[OF none s] show "\<not> tier1 (norm ''Unused import'') thread_sql"
      "\<not> tier2 (norm ''Unused import'') thread_sql" by (rule conjunct1, rule conjunct2)
  qed
  from exact looser r1 each r2 show ?thesis by (intro conjI)
qed

text \<open>
  Claim C9, as stated, fails: a title without letters and digits normalises to the empty
  string, and so does the title \<open>???\<close> of the second thread below; the exact tier finds that
  thread before the substring tier is tried, so the first thread of the list is not the one
  returned.
\<close>

theorem findMatchingThread_empty_title_counterexample:
  "norm ''?!'' = []
   \<and> findMatchingThread [thread_inj, thread_marks] ''?!'' None = Some thread_marks
   \<and> findMatchingThread [thread_inj, thread_marks] ''?!'' None \<noteq> Some thread_inj"
  by code_simp

text \<open>
  Claim C9, amended. For a finding whose normalised title is empty and a non-empty list of
  threads, the matcher returns the first thread whose normalised title is empty as well, if
  there is one (exact tier), and otherwise the first thread of the list (substring tier);
  the finding's path plays no role.
\<close>

theorem findMatchingThread_empty_title:
  "norm ttl = [] \<Longrightarrow>
   findMatchingThread (t # ts) ttl filePath =
     (case find (\<lambda>u. norm (botTitle u) = []) (t # ts) of
        Some m \<Rightarrow> Some m
      | None \<Rightarrow> Some t)"
proof -
  assume n: "norm ttl = []"
  show ?thesis
    unfolding findMatchingThread_cases n tier1_eq find_tier2_empty
    by (simp split: option.splits)
qed

theorem findMatchingThread_empty_title_witness:
  "norm ''?!'' = []
   \<and> findMatchingThread [thread_inj, thread_sql] ''?!'' (Some ''src/db.ts'') = Some thread_inj"
proof -
  have empty: "norm ''?!'' = []"
    by code_simp
  have first: "(case find (\<lambda>u. norm (botTitle u) = []) [thread_inj, thread_sql] of
                  Some m \<Rightarrow> Some m | None \<Rightarrow> Some thread_inj) = Some thread_inj"
    by code_simp
  have "findMatchingThread [thread_inj, thread_sql] ''?!'' (Some ''src/db.ts'') = Some thread_inj"
    using findMatchingThread_empty_title
            [OF empty, where t = thread_inj and ts = "[thread_sql]"
               and filePath = "Some ''src/db.ts''"]
    unfolding first .
  with empty show ?thesis by (intro conjI)
qed

section \<open>Properties of the diff anchor resolver\<close>

lemma add_anchor_ok:
  "diff_inv st \<Longrightarrow> truthy (currentFile st) \<Longrightarrow> \<exists>st'. add_anchor st = Inr st' \<and> diff_inv st'"
  by (auto simp: add_anchor_def diff_inv_def truthy_def Let_def split: option.splits)

lemma diff_step_ok: "diff_inv st \<Longrightarrow> \<exists>st'. diff_step st ln = Inr st' \<and> diff_inv st'"
proof (cases "fileMatch ln")
  case (Some f)
  assume "diff_inv st"
  then show ?thesis using Some
    by (auto simp: diff_step_def diff_inv_def split: option.splits)
next
  case None
  assume inv: "diff_inv st"
  show ?thesis
  proof (cases "hunkMatch ln")
    case (Some d)
    with None inv show ?thesis by (auto simp: diff_step_def diff_inv_def split: option.splits)
  next
    case hn: None
    show ?thesis
    proof (cases "truthy (currentFile st)")
      case True
      with add_anchor_ok[OF inv] obtain st' where "add_anchor st = Inr st'" "diff_inv st'" by blast
      with None hn True inv show ?thesis by (auto simp: diff_step_def)
    next
      case False
      with None hn inv show ?thesis by (simp add: diff_step_def)
    qed
  qed
qed

lemma diff_loop_ok: "diff_inv st \<Longrightarrow> \<exists>st'. diff_loop st ls = Inr st' \<and> diff_inv st'"
proof (induction ls arbitrary: st)
  case Nil
  then show ?case by simp
next
  case (Cons l ls)
  from diff_step_ok[OF Cons.prems] obtain st1 where s: "diff_step st l = Inr st1" "diff_inv st1"
    by blast
  from Cons.IH[OF s(2)] s(1) show ?case by simp
qed

lemma diff_inv_init: "diff_inv diff_init"
  by (simp add: diff_inv_def diff_init_def)

lemma parse_total: "\<exists>m. parseDiffForValidLines diff = Inr m"
  using diff_loop_ok[OF diff_inv_init, of "split_on (CHR 0x0A) diff"]
  by (auto simp: parseDiffForValidLines_def)

lemma diff_loop_append:
  "diff_loop st (xs @ ys) =
     (case diff_loop st xs of Inl e \<Rightarrow> Inl e | Inr st' \<Rightarrow> diff_loop st' ys)"
  by (induction xs arbitrary: st) (auto split: sum.splits)

lemma diff_step_no_file:
  "fileMatch ln = None \<Longrightarrow> currentFile st = None \<Longrightarrow>
   \<exists>n. diff_step st ln = Inr (st\<lparr>newLineNum := n\<rparr>)"
proof (cases "hunkMatch ln")
  case None
  assume "fileMatch ln = None" "currentFile st = None"
  with None have "diff_step st ln = Inr (st\<lparr>newLineNum := newLineNum st\<rparr>)"
    by (simp add: diff_step_def truthy_def)
  then show ?thesis by blast
next
  case (Some d)
  assume "fileMatch ln = None" "currentFile st = None"
  with Some show ?thesis by (auto simp: diff_step_def)
qed

lemma diff_loop_no_file:
  "\<forall>l \<in> set ls. fileMatch l = None \<Longrightarrow> currentFile st = None \<Longrightarrow>
   \<exists>n. diff_loop st ls = Inr (st\<lparr>newLineNum := n\<rparr>)"
proof (induction ls arbitrary: st)
  case Nil
  have "diff_loop st [] = Inr (st\<lparr>newLineNum := newLineNum st\<rparr>)" by simp
  then show ?case by blast
next
  case (Cons l ls)
  then obtain n where n: "diff_step st l = Inr (st\<lparr>newLineNum := n\<rparr>)"
    using diff_step_no_file[of l st] by auto
  have "currentFile (st\<lparr>newLineNum := n\<rparr>) = None" using Cons.prems by simp
  with Cons.IH[of "st\<lparr>newLineNum := n\<rparr>"] Cons.prems
  obtain k where
    "diff_loop (st\<lparr>newLineNum := n\<rparr>) ls = Inr (st\<lparr>newLineNum := n, newLineNum := k\<rparr>)"
    by auto
  with n show ?case by auto
qed

lemma hunkMatch_plus: "startsWith ln ''+'' \<Longrightarrow> hunkMatch ln = None"
  by (cases ln) (auto simp: hunkMatch_def startsWith_def split: if_splits)

lemma plus3_plus: "startsWith ln ''+++'' \<Longrightarrow> startsWith ln ''+''"
  by (cases ln) (auto simp: startsWith_def split: if_splits)

lemma plus3_not_space: "startsWith ln ''+++'' \<Longrightarrow> \<not> startsWith ln '' ''"
  by (cases ln) (auto simp: startsWith_def split: if_splits)

lemma diff_step_plus3:
  "startsWith ln ''+++'' \<Longrightarrow>
   \<exists>st'. diff_step st ln = Inr st' \<and> newLineNum st' = newLineNum st
        \<and> (\<forall>f. anchors (validLines st') f = anchors (validLines st) f)"
  by (auto simp: diff_step_def hunkMatch_plus[OF plus3_plus] plus3_not_space anchors_def
      split: option.splits)

lemma diff_step_dev_null: "diff_step st ''+++ /dev/null'' = Inr st"
  by (simp add: diff_step_def fileMatch_def hunkMatch_def add_anchor_def startsWith_def)

lemma minus_line_ignored:
  "startsWith ln ''-'' \<Longrightarrow> diff_step st ln = Inr st"
  by (cases ln) (auto simp: diff_step_def fileMatch_def hunkMatch_def startsWith_def
      split: if_splits)

text \<open>
  What the loop does by design: a hunk header sets the counter to the new-side start minus
  one, and a line of the current file prefixed by a space, or by \<open>+\<close> but not \<open>+++\<close>,
  advances the counter and puts the new value into the set of the current file.
\<close>

lemma diff_step_hunk:
  "fileMatch ln = None \<Longrightarrow> hunkMatch ln = Some d \<Longrightarrow>
   diff_step st ln = Inr (st\<lparr>newLineNum := parseInt d - 1\<rparr>)"
  by (simp add: diff_step_def)

lemma diff_step_content:
  "fileMatch ln = None \<Longrightarrow> hunkMatch ln = None \<Longrightarrow>
   currentFile st = Some f \<Longrightarrow> f \<noteq> [] \<Longrightarrow> validLines st f = Some s \<Longrightarrow>
   (startsWith ln ''+'' \<and> \<not> startsWith ln ''+++'') \<or> startsWith ln '' '' \<Longrightarrow>
   diff_step st ln =
     Inr (st\<lparr>newLineNum := newLineNum st + 1,
             validLines := (validLines st)(f \<mapsto> insert (newLineNum st + 1) s)\<rparr>)"
  by (auto simp: diff_step_def add_anchor_def truthy_def Let_def)

lemmas diff_eval =
  parseDiffForValidLines_def diff_init_def diff_step_def fileMatch_def hunkMatch_def
  digits1_def opt_comma_digits_def is_digit_def dot_plus_def startsWith_def add_anchor_def
  truthy_def parseInt_def digit_val_def

text \<open>The scenario of the specification: one hunk starting at line 10 of the new file.\<close>

lemma parseDiffForValidLines_scenario:
  "parseDiffForValidLines
     ''+++ b/src/a.ts\<newline>@@ -10,3 +10,4 @@\<newline> ctxA\<newline>+added1\<newline>+added2\<newline> ctxB''
   = Inr [''src/a.ts'' \<mapsto> {13, 12, 11, 10}]"
  by (simp add: diff_eval)

text \<open>
  Claim C4 (the code departs from it). An added line whose own text begins with \<open>++\<close> stands
  in the diff as a line beginning with \<open>+++\<close>. The test that keeps file headers out of the
  anchors also discards such a line, and the counter is not advanced for it. In the hunk
  below the new file has the lines 1 (context), 2 (\<open>++i;\<close>) and 3 (\<open>x\<close>), all of them legal
  targets; the resolver gives 1 and 2 only, and its 2 is the line after the one it skipped.
\<close>

theorem parseDiffForValidLines_plus_plus_line:
  "parseDiffForValidLines ''+++ b/src/a.js\<newline>@@ -1,1 +1,3 @@\<newline> ctx\<newline>+++i;\<newline>+x''
   = Inr [''src/a.js'' \<mapsto> {2, 1}]"
  by (simp add: diff_eval)

text \<open>
  Claim C10. The resolver never throws: it returns a map for every text. Lines before the
  first \<open>+++ b/\<close> header leave the map empty and no current file, so the text after them is
  processed from the initial state (only the counter may have been set by a hunk header).
  The loop keeps the invariant that the current file has its set in the map, which is what
  the lookup relies on. A line beginning with \<open>+++\<close> leaves the counter and every anchor set
  as they are, and \<open>+++ /dev/null\<close> leaves the whole state as it is.
\<close>

theorem parseDiffForValidLines_total:
  "(\<exists>m. parseDiffForValidLines diff = Inr m)
   \<and> ((\<forall>l \<in> set (split_on (CHR 0x0A) pre). fileMatch l = None) \<longrightarrow>
        parseDiffForValidLines pre = Inr Map.empty
        \<and> (\<exists>n. diff_loop diff_init (split_on (CHR 0x0A) (pre @ CHR 0x0A # rest))
                = diff_loop (diff_init\<lparr>newLineNum := n\<rparr>) (split_on (CHR 0x0A) rest)))
   \<and> (diff_inv st \<longrightarrow> (\<exists>st'. diff_step st ln = Inr st' \<and> diff_inv st'))
   \<and> (startsWith ln ''+++'' \<longrightarrow>
        (\<exists>st'. diff_step st ln = Inr st' \<and> newLineNum st' = newLineNum st
              \<and> (\<forall>f. anchors (validLines st') f = anchors (validLines st) f)))
   \<and> diff_step st ''+++ /dev/null'' = Inr st"
proof -
  have skipped: "parseDiffForValidLines pre = Inr Map.empty
        \<and> (\<exists>n. diff_loop diff_init (split_on (CHR 0x0A) (pre @ CHR 0x0A # rest))
                = diff_loop (diff_init\<lparr>newLineNum := n\<rparr>) (split_on (CHR 0x0A) rest))"
    if nf: "\<forall>l \<in> set (split_on (CHR 0x0A) pre). fileMatch l = None"
  proof -
    have "currentFile diff_init = None" by (simp add: diff_init_def)
    with diff_loop_no_file[OF nf] obtain n where
      n: "diff_loop diff_init (split_on (CHR 0x0A) pre) = Inr (diff_init\<lparr>newLineNum := n\<rparr>)"
      by blast
    then have "parseDiffForValidLines pre = Inr Map.empty"
      by (simp add: parseDiffForValidLines_def diff_init_def)
    moreover have "diff_loop diff_init (split_on (CHR 0x0A) (pre @ CHR 0x0A # rest))
                = diff_loop (diff_init\<lparr>newLineNum := n\<rparr>) (split_on (CHR 0x0A) rest)"
      by (simp add: split_on_append diff_loop_append n)
    ultimately show ?thesis by blast
  qed
  from parse_total[of diff] skipped diff_step_ok[of st ln] diff_step_plus3[of ln st]
    diff_step_dev_null[of st]
  show ?thesis by blast
qed

theorem parseDiffForValidLines_total_witness:
  "split_on (CHR 0x0A) ''@@ -1 +5 @@\<newline>+early'' = [''@@ -1 +5 @@'', ''+early'']
   \<and> fileMatch ''@@ -1 +5 @@'' = None \<and> fileMatch ''+early'' = None
   \<and> parseDiffForValidLines ''@@ -1 +5 @@\<newline>+early'' = Inr Map.empty
   \<and> diff_inv diff_init
   \<and> startsWith ''+++ b/src/a.ts'' ''+++''
   \<and> diff_step diff_init ''+++ b/src/a.ts''
       = Inr \<lparr>validLines = [''src/a.ts'' \<mapsto> {}], currentFile = Some ''src/a.ts'', newLineNum = 0\<rparr>
   \<and> parseDiffForValidLines ''@@ -1 +5 @@\<newline>+early\<newline>+++ b/src/a.ts\<newline>+late''
       = Inr [''src/a.ts'' \<mapsto> {5}]"
  using parseDiffForValidLines_total
          [where diff = "''@@ -1 +5 @@\<newline>+early\<newline>+++ b/src/a.ts\<newline>+late''"
             and pre = "''@@ -1 +5 @@\<newline>+early''" and rest = "''+++ b/src/a.ts\<newline>+late''"
             and st = diff_init and ln = "''+++ b/src/a.ts''"]
  by (simp add: diff_eval diff_inv_def)

section \<open>Properties of the review and of the run\<close>

lemma place_findings_eq:
  "place_findings vl fs =
     (map inline_of (filter (placeable vl) fs), filter (\<lambda>f. \<not> placeable vl f) fs)"
  by (induction fs) auto

lemma placeable_anchors: "placeable vl f \<longleftrightarrow> line f \<in> anchors vl (path f)"
  by (simp add: placeable_def anchors_def split: option.splits)

lemma postReview_eq:
  assumes "parseDiffForValidLines diff = Inr vl"
  shows "postReview R data diff modelId isReReview reviewThreads tr =
     (case R tr (review_effect data vl modelId isReReview) of
        Some msg \<Rightarrow> (tr @ [review_effect data vl modelId isReReview], Inl (Error msg))
      | None \<Rightarrow>
          (tr @ review_effect data vl modelId isReReview
                  # (if isReReview then thread_effects data reviewThreads else []),
           Inr ()))"
  using assms
  by (simp add: postReview_def place_findings_eq call_def review_effect_def split: option.splits)

lemma thread_effects_only:
  "e \<in> set (thread_effects data reviewThreads) \<Longrightarrow> is_thread_effect e"
  by (auto simp: thread_effects_def bump_effects_def resolve_effects_def accept_effects_def
      split: option.splits)

lemma body_has_unplaceable:
  assumes "f \<in> set unplaceable"
  shows "\<exists>p q. buildReviewBody data isReReview modelId unplaceable = p @ unplaceable_entry f @ q"
proof -
  from assms have ne: "unplaceable \<noteq> []" by auto
  from concat_map_mem[OF assms, of unplaceable_entry] obtain p q where
    c: "concat (map unplaceable_entry unplaceable) = p @ unplaceable_entry f @ q" by blast
  obtain h where h: "unplaceable_section unplaceable = h @ p @ unplaceable_entry f @ q"
    using ne c by (simp add: unplaceable_section_def)
  obtain a b where ab: "buildReviewBody data isReReview modelId unplaceable =
      a @ unplaceable_section unplaceable @ b"
    by (simp add: buildReviewBody_def) (metis append.assoc)
  have "buildReviewBody data isReReview modelId unplaceable =
      (a @ h @ p) @ unplaceable_entry f @ (q @ b)"
    by (simp add: ab h)
  then show ?thesis by blast
qed

text \<open>The shape of every trace of postReview.\<close>

lemma postReview_trace:
  assumes "parseDiffForValidLines diff = Inr vl"
  shows "\<exists>rest. fst (postReview R data diff modelId isReReview reviewThreads tr)
           = tr @ review_effect data vl modelId isReReview # rest
         \<and> (\<forall>e \<in> set rest. is_thread_effect e)
         \<and> (R tr (review_effect data vl modelId isReReview) = None \<longrightarrow>
              rest = (if isReReview then thread_effects data reviewThreads else [])
              \<and> snd (postReview R data diff modelId isReReview reviewThreads tr) = Inr ())"
proof (cases "R tr (review_effect data vl modelId isReReview)")
  case None
  then show ?thesis
    by (auto simp: postReview_eq[OF assms] thread_effects_only)
next
  case (Some msg)
  then show ?thesis by (simp add: postReview_eq[OF assms])
qed

lemma postComment_trace: "fst (postComment R c tr) = tr @ [PostComment (replace_first ''[Model ID will be shown]'' ''Unknown'' c)]"
  by (simp add: postComment_def call_def)

lemma main_unparsed:
  "parseAnalysisJSON J raw = None \<Longrightarrow>
   main R cfg J raw diff modelId reviewThreads =
     ([PostComment (replace_first ''[Model ID will be shown]'' ''Unknown''
         (fallback_notice ''Analysis did not return a parseable JSON response''))], Exited 1)"
  by (simp add: main_def main_try_def postComment_trace message_def)

text \<open>After a parsed answer, the trace of the run starts with the review.\<close>

lemma main_starts_with_review:
  assumes "parseAnalysisJSON J raw = Some data" "parseDiffForValidLines diff = Inr vl"
  shows "\<exists>rest out. main R cfg J raw diff modelId reviewThreads =
           (review_effect data vl modelId (reviewThreads \<noteq> []) # rest, out)"
proof -
  obtain tr1 r1 where p: "postReview R data diff modelId (reviewThreads \<noteq> []) reviewThreads [] = (tr1, r1)"
    by (cases "postReview R data diff modelId (reviewThreads \<noteq> []) reviewThreads []")
  from postReview_trace[OF assms(2), of R data modelId "reviewThreads \<noteq> []" reviewThreads "[]"] p
  obtain rest where tr1: "tr1 = review_effect data vl modelId (reviewThreads \<noteq> []) # rest"
    by auto
  show ?thesis
    unfolding main_def main_try_def assms(1) option.case p prod.case tr1
    by (auto simp: postGeneralNotes_def postComment_def call_def postSuccessComment_def
        addNoncompliantLabel_def Let_def split: sum.splits option.splits prod.splits)
qed

lemma main_fail_mode:
  assumes "parseAnalysisJSON J raw = Some data" "all_findings data \<noteq> [] \<or> status data = Some ''BLOCK_MERGE''"
    "FAILURE_MODE cfg \<noteq> ''label''"
  shows "snd (main R cfg J raw diff modelId reviewThreads) = Exited 1"
  using assms(2,3)
  unfolding main_def main_try_def assms(1) option.case
  by (auto simp: countIssues_def Let_def split: sum.splits option.splits prod.splits)

lemma main_all_ok:
  assumes "parseAnalysisJSON J raw = Some data" "\<forall>tr e. R tr e = None"
  shows "snd (main R cfg J raw diff modelId reviewThreads) =
     (if all_findings data \<noteq> [] \<or> status data = Some ''BLOCK_MERGE''
      then (if FAILURE_MODE cfg = ''label'' then Completed else Exited 1)
      else Completed)"
proof -
  obtain vl where vl: "parseDiffForValidLines diff = Inr vl" using parse_total by blast
  show ?thesis
    unfolding main_def main_try_def assms(1) option.case
    by (simp add: postReview_eq[OF vl] assms(2) postGeneralNotes_def postComment_def call_def
        postSuccessComment_def countIssues_def Let_def)
qed

lemma filter_two_lt:
  "x \<in> set xs \<Longrightarrow> \<not> P x \<Longrightarrow> \<not> Q x \<Longrightarrow> (\<And>y. P y \<Longrightarrow> \<not> Q y) \<Longrightarrow>
   length (filter P xs) + length (filter Q xs) < length xs"
proof (induction xs)
  case Nil
  then show ?case by simp
next
  case (Cons a xs)
  have le: "length (filter P xs) + length (filter Q xs) \<le> length xs"
    using Cons.prems(4) by (induction xs) auto
  show ?case
  proof (cases "x = a")
    case True
    with Cons.prems le show ?thesis by simp
  next
    case False
    with Cons have "length (filter P xs) + length (filter Q xs) < length xs" by auto
    with Cons.prems(4) show ?thesis by auto
  qed
qed

lemma bump_in_thread_effects:
  "f \<in> set (or_empty (persisting data)) \<Longrightarrow>
   findMatchingThread ths (title f) (Some (path f)) = Some t \<Longrightarrow>
   ReplyToReviewComment (firstCommentId t) (bump_body f) \<in> set (thread_effects data ths)"
  by (force simp: thread_effects_def bump_effects_def)

lemma resolve_in_thread_effects:
  "x \<in> set (or_empty (resolved data)) \<Longrightarrow>
   findMatchingThread ths x None = Some t \<Longrightarrow>
   ResolveReviewThread (threadId t) \<in> set (thread_effects data ths)"
  by (force simp: thread_effects_def resolve_effects_def)

lemma accept_in_thread_effects:
  "x \<in> set (or_empty (accepted_explanations data)) \<Longrightarrow>
   findMatchingThread ths x None = Some t \<Longrightarrow>
   ReplyToReviewComment (firstCommentId t)
       (check_mark @ '' Explanation accepted. Resolving this comment.'')
     \<in> set (thread_effects data ths)
   \<and> ResolveReviewThread (threadId t) \<in> set (thread_effects data ths)"
  by (force simp: thread_effects_def accept_effects_def)

lemma findingsForInline_subset:
  "f \<in> set (findingsForInline data isReReview) \<Longrightarrow> f \<in> set (all_findings data)"
  by (auto simp: findingsForInline_def all_findings_def split: if_splits)

lemma inline_of_unplaced:
  "\<not> placeable vl f \<Longrightarrow> inline_of f \<notin> set (map inline_of (filter (placeable vl) fs))"
proof
  assume np: "\<not> placeable vl f"
  assume "inline_of f \<in> set (map inline_of (filter (placeable vl) fs))"
  then obtain g where g: "placeable vl g" "inline_of g = inline_of f" by auto
  from g(2) have "path g = path f" "line g = line f"
    by (auto simp: inline_of_def)
  with g(1) np show False by (auto simp: placeable_def split: option.splits)
qed

lemma entry_has_body: "\<exists>p q. unplaceable_entry f = p @ body_or_title f @ q"
proof -
  have "unplaceable_entry f =
      (''### '' @ priorityIcon (priority f) @ '' '' @ title f @ '' '' @ location f
         @ ''\<newline>\<newline>'') @ body_or_title f @ ''\<newline>\<newline>''"
    by (simp add: unplaceable_entry_def)
  then show ?thesis by blast
qed

lemma postGeneralNotes_trace:
  "fst (postGeneralNotes R notes modelId tr) = tr @ notes_effects notes modelId"
  by (simp add: notes_effects_def postGeneralNotes_def postComment_def call_def)

lemma postSuccessComment_trace:
  "fst (postSuccessComment R cfg modelId tr) = tr @ success_effects cfg modelId"
  by (simp add: success_effects_def postSuccessComment_def postComment_def call_def)

lemma postGeneralNotes_ok:
  "\<forall>tr e. R tr e = None \<Longrightarrow> snd (postGeneralNotes R notes modelId tr) = Inr ()"
  by (simp add: postGeneralNotes_def postComment_def call_def)

lemma postSuccessComment_ok:
  "\<forall>tr e. R tr e = None \<Longrightarrow> snd (postSuccessComment R cfg modelId tr) = Inr ()"
  by (simp add: postSuccessComment_def postComment_def call_def)

lemma thread_effect_no_label: "is_thread_effect e \<Longrightarrow> \<not> is_label_effect e"
  by (cases e) auto

lemma notes_effects_no_label: "e \<in> set (notes_effects notes modelId) \<Longrightarrow> \<not> is_label_effect e"
  by (auto simp: notes_effects_def postGeneralNotes_def postComment_def call_def split: if_splits)

lemma success_effects_no_label: "e \<in> set (success_effects cfg modelId) \<Longrightarrow> \<not> is_label_effect e"
  by (auto simp: success_effects_def postSuccessComment_def postComment_def call_def)

lemma review_effect_no_label: "\<not> is_label_effect (review_effect data vl modelId rr)"
  by (simp add: review_effect_def)

text \<open>The whole run when the answer parses and every remote call succeeds.\<close>

lemma main_all_ok_eq:
  assumes "parseAnalysisJSON J raw = Some data" "\<forall>tr e. R tr e = None"
    "parseDiffForValidLines diff = Inr vl"
  shows "main R cfg J raw diff modelId reviewThreads =
     (review_effect data vl modelId (reviewThreads \<noteq> [])
        # (if reviewThreads \<noteq> [] then thread_effects data reviewThreads else [])
        @ notes_effects (or_empty (general_notes data)) modelId
        @ (if all_findings data \<noteq> [] \<or> status data = Some ''BLOCK_MERGE''
           then (if FAILURE_MODE cfg = ''label'' then [CreateLabel, AddLabel] else [])
           else success_effects cfg modelId @ [RemoveLabel]),
      if all_findings data \<noteq> [] \<or> status data = Some ''BLOCK_MERGE''
      then (if FAILURE_MODE cfg = ''label'' then Completed else Exited 1)
      else Completed)"
proof -
  let ?tr1 = "review_effect data vl modelId (reviewThreads \<noteq> [])
        # (if reviewThreads \<noteq> [] then thread_effects data reviewThreads else [])"
  have p: "postReview R data diff modelId (reviewThreads \<noteq> []) reviewThreads [] = (?tr1, Inr ())"
    by (simp add: postReview_eq[OF assms(3)] assms(2))
  have n: "postGeneralNotes R (or_empty (general_notes data)) modelId ?tr1
             = (?tr1 @ notes_effects (or_empty (general_notes data)) modelId, Inr ())"
    using postGeneralNotes_trace[of R "or_empty (general_notes data)" modelId ?tr1]
      postGeneralNotes_ok[OF assms(2), of "or_empty (general_notes data)" modelId ?tr1]
    by (metis prod.collapse)
  have s: "postSuccessComment R cfg modelId tr = (tr @ success_effects cfg modelId, Inr ())" for tr
    using postSuccessComment_trace[of R cfg modelId tr] postSuccessComment_ok[OF assms(2), of cfg modelId tr]
    by (metis prod.collapse)
  show ?thesis
    unfolding main_def main_try_def assms(1) option.case p prod.case sum.case n s
    by (simp add: countIssues_def Let_def addNoncompliantLabel_def assms(2))
qed

lemma main_all_ok_no_error:
  assumes "parseAnalysisJSON J raw = Some data" "\<forall>tr e. R tr e = None"
  shows "\<exists>tr out. main_try R cfg J raw diff modelId reviewThreads = (tr, Inr out)
           \<and> main R cfg J raw diff modelId reviewThreads = (tr, out)"
proof -
  obtain vl where vl: "parseDiffForValidLines diff = Inr vl" using parse_total by blast
  let ?tr1 = "review_effect data vl modelId (reviewThreads \<noteq> [])
        # (if reviewThreads \<noteq> [] then thread_effects data reviewThreads else [])"
  have p: "postReview R data diff modelId (reviewThreads \<noteq> []) reviewThreads [] = (?tr1, Inr ())"
    by (simp add: postReview_eq[OF vl] assms(2))
  have n: "postGeneralNotes R (or_empty (general_notes data)) modelId ?tr1
             = (?tr1 @ notes_effects (or_empty (general_notes data)) modelId, Inr ())"
    using postGeneralNotes_trace[of R "or_empty (general_notes data)" modelId ?tr1]
      postGeneralNotes_ok[OF assms(2), of "or_empty (general_notes data)" modelId ?tr1]
    by (metis prod.collapse)
  have s: "postSuccessComment R cfg modelId tr = (tr @ success_effects cfg modelId, Inr ())" for tr
    using postSuccessComment_trace[of R cfg modelId tr] postSuccessComment_ok[OF assms(2), of cfg modelId tr]
    by (metis prod.collapse)
  show ?thesis
    unfolding main_def main_try_def assms(1) option.case p prod.case sum.case n s
    by (simp add: countIssues_def Let_def)
qed

lemma main_label_effects:
  assumes "parseAnalysisJSON J raw = Some data" "\<forall>tr e. R tr e = None"
  shows "(AddLabel \<in> set (fst (main R cfg J raw diff modelId reviewThreads)))
           = ((all_findings data \<noteq> [] \<or> status data = Some ''BLOCK_MERGE'')
              \<and> FAILURE_MODE cfg = ''label'')"
    and "(RemoveLabel \<in> set (fst (main R cfg J raw diff modelId reviewThreads)))
           = (\<not> (all_findings data \<noteq> [] \<or> status data = Some ''BLOCK_MERGE''))"
proof -
  obtain vl where vl: "parseDiffForValidLines diff = Inr vl" using parse_total by blast
  have nl: "\<not> is_label_effect e"
    if "e \<in> set (review_effect data vl modelId (reviewThreads \<noteq> [])
        # (if reviewThreads \<noteq> [] then thread_effects data reviewThreads else [])
        @ notes_effects (or_empty (general_notes data)) modelId)" for e
    using that review_effect_no_label thread_effects_only thread_effect_no_label
      notes_effects_no_label
    by (auto split: if_splits)
  have a: "AddLabel \<notin> set (review_effect data vl modelId (reviewThreads \<noteq> [])
        # (if reviewThreads \<noteq> [] then thread_effects data reviewThreads else [])
        @ notes_effects (or_empty (general_notes data)) modelId)"
    using nl[of AddLabel] by auto
  have r: "RemoveLabel \<notin> set (review_effect data vl modelId (reviewThreads \<noteq> [])
        # (if reviewThreads \<noteq> [] then thread_effects data reviewThreads else [])
        @ notes_effects (or_empty (general_notes data)) modelId)"
    using nl[of RemoveLabel] by auto
  have sa: "AddLabel \<notin> set (success_effects cfg modelId)"
    using success_effects_no_label[of AddLabel] by auto
  have sr: "RemoveLabel \<notin> set (success_effects cfg modelId)"
    using success_effects_no_label[of RemoveLabel] by auto
  show "(AddLabel \<in> set (fst (main R cfg J raw diff modelId reviewThreads)))
           = ((all_findings data \<noteq> [] \<or> status data = Some ''BLOCK_MERGE'')
              \<and> FAILURE_MODE cfg = ''label'')"
    using a sa unfolding main_all_ok_eq[OF assms vl] by auto
  show "(RemoveLabel \<in> set (fst (main R cfg J raw diff modelId reviewThreads)))
           = (\<not> (all_findings data \<noteq> [] \<or> status data = Some ''BLOCK_MERGE''))"
    using r sr unfolding main_all_ok_eq[OF assms vl] by auto
qed

lemma main_bumps:
  assumes "parseAnalysisJSON J raw = Some data" "\<forall>tr e. R tr e = None"
    "reviewThreads \<noteq> []" "f \<in> set (or_empty (persisting data))"
    "findMatchingThread reviewThreads (title f) (Some (path f)) = Some t"
  shows "ReplyToReviewComment (firstCommentId t) (bump_body f)
           \<in> set (fst (main R cfg J raw diff modelId reviewThreads))"
proof -
  obtain vl where vl: "parseDiffForValidLines diff = Inr vl" using parse_total by blast
  from bump_in_thread_effects[OF assms(4,5)] assms(3)
  show ?thesis unfolding main_all_ok_eq[OF assms(1,2) vl] by simp
qed

lemma bump_body_icon: "\<exists>r. bump_body f = priorityIcon (priority f) @ r"
  by (simp add: bump_body_def)

lemma body_or_title_body: "body f = Some b \<Longrightarrow> b \<noteq> [] \<Longrightarrow> body_or_title f = b"
  by (simp add: body_or_title_def truthy_def)




text \<open>
  Claim C2, as stated, fails. Threads are consulted for the entries of \<open>persisting\<close>,
  \<open>resolved\<close> and \<open>accepted_explanations\<close> only. A finding that the analysis lists under
  \<open>new_findings\<close> is posted as an inline comment although its title and path match the open
  thread on \<open>src/db.ts\<close>; the run emits no reply and no resolution.
\<close>

theorem duplicate_inline_counterexample:
  "findMatchingThread [thread_sql] (title f_sql) (Some (path f_sql)) = Some thread_sql
   \<and> norm (title f_sql) = norm (botTitle thread_sql)
   \<and> path f_sql = thread_path thread_sql
   \<and> new_findings d_dup = Some [f_sql]
   \<and> fst (postReview always_ok d_dup diff_db ''m'' True [thread_sql] [])
       = [PostReview (buildReviewBody d_dup True ''m'' []) [inline_of f_sql]]"
  by code_simp

text \<open>
  Claim C2, amended. On a re-review the inline comments are those of the entries of
  \<open>new_findings\<close> whose line is an anchor, whatever the open threads are; nothing else of
  the run posts an inline comment. When the review has been submitted, every finding under
  \<open>persisting\<close> that matches a thread is bumped by a reply on that thread, every title
  under \<open>resolved\<close> that matches a thread resolves it, and every title under
  \<open>accepted_explanations\<close> that matches a thread is acknowledged by a reply and resolves
  it.
\<close>

theorem persisting_never_inline:
  "parseDiffForValidLines diff = Inr vl \<longrightarrow>
     (\<exists>b rest.
        fst (postReview R data diff modelId True reviewThreads tr)
          = tr @ PostReview b (map inline_of (filter (placeable vl) (or_empty (new_findings data))))
               # rest
        \<and> (\<forall>e \<in> set rest. is_thread_effect e)
        \<and> (R tr (PostReview b (map inline_of
                    (filter (placeable vl) (or_empty (new_findings data))))) = None \<longrightarrow>
             (\<forall>f \<in> set (or_empty (persisting data)). \<forall>t.
                findMatchingThread reviewThreads (title f) (Some (path f)) = Some t \<longrightarrow>
                ReplyToReviewComment (firstCommentId t) (bump_body f) \<in> set rest)
             \<and> (\<forall>x \<in> set (or_empty (resolved data)). \<forall>t.
                findMatchingThread reviewThreads x None = Some t \<longrightarrow>
                ResolveReviewThread (threadId t) \<in> set rest)
             \<and> (\<forall>x \<in> set (or_empty (accepted_explanations data)). \<forall>t.
                findMatchingThread reviewThreads x None = Some t \<longrightarrow>
                ReplyToReviewComment (firstCommentId t)
                    (check_mark @ '' Explanation accepted. Resolving this comment.'')
                  \<in> set rest
                \<and> ResolveReviewThread (threadId t) \<in> set rest)))"
proof
  assume vl: "parseDiffForValidLines diff = Inr vl"
  from postReview_trace[OF vl, of R data modelId True reviewThreads tr]
  obtain rest where
    shape: "fst (postReview R data diff modelId True reviewThreads tr)
       = tr @ review_effect data vl modelId True # rest"
    and only: "\<forall>e \<in> set rest. is_thread_effect e"
    and ok: "R tr (review_effect data vl modelId True) = None \<longrightarrow>
       rest = thread_effects data reviewThreads"
    by auto
  have re: "review_effect data vl modelId True =
     PostReview (buildReviewBody data True modelId
                   (filter (\<lambda>f. \<not> placeable vl f) (or_empty (new_findings data))))
       (map inline_of (filter (placeable vl) (or_empty (new_findings data))))"
    by (simp add: review_effect_def findingsForInline_def)
  show "\<exists>b rest.
        fst (postReview R data diff modelId True reviewThreads tr)
          = tr @ PostReview b (map inline_of (filter (placeable vl) (or_empty (new_findings data))))
               # rest
        \<and> (\<forall>e \<in> set rest. is_thread_effect e)
        \<and> (R tr (PostReview b (map inline_of
                    (filter (placeable vl) (or_empty (new_findings data))))) = None \<longrightarrow>
             (\<forall>f \<in> set (or_empty (persisting data)). \<forall>t.
                findMatchingThread reviewThreads (title f) (Some (path f)) = Some t \<longrightarrow>
                ReplyToReviewComment (firstCommentId t) (bump_body f) \<in> set rest)
             \<and> (\<forall>x \<in> set (or_empty (resolved data)). \<forall>t.
                findMatchingThread reviewThreads x None = Some t \<longrightarrow>
                ResolveReviewThread (threadId t) \<in> set rest)
             \<and> (\<forall>x \<in> set (or_empty (accepted_explanations data)). \<forall>t.
                findMatchingThread reviewThreads x None = Some t \<longrightarrow>
                ReplyToReviewComment (firstCommentId t)
                    (check_mark @ '' Explanation accepted. Resolving this comment.'')
                  \<in> set rest
                \<and> ResolveReviewThread (threadId t) \<in> set rest))"
  proof (intro exI conjI)
    show "fst (postReview R data diff modelId True reviewThreads tr)
          = tr @ PostReview (buildReviewBody data True modelId
                   (filter (\<lambda>f. \<not> placeable vl f) (or_empty (new_findings data))))
                 (map inline_of (filter (placeable vl) (or_empty (new_findings data))))
               # rest"
      using shape unfolding re .
    show "\<forall>e \<in> set rest. is_thread_effect e" by (rule only)
    show "R tr (PostReview (buildReviewBody data True modelId
                   (filter (\<lambda>f. \<not> placeable vl f) (or_empty (new_findings data))))
                 (map inline_of (filter (placeable vl) (or_empty (new_findings data))))) = None
          \<longrightarrow>
             (\<forall>f \<in> set (or_empty (persisting data)). \<forall>t.
                findMatchingThread reviewThreads (title f) (Some (path f)) = Some t \<longrightarrow>
                ReplyToReviewComment (firstCommentId t) (bump_body f) \<in> set rest)
             \<and> (\<forall>x \<in> set (or_empty (resolved data)). \<forall>t.
                findMatchingThread reviewThreads x None = Some t \<longrightarrow>
                ResolveReviewThread (threadId t) \<in> set rest)
             \<and> (\<forall>x \<in> set (or_empty (accepted_explanations data)). \<forall>t.
                findMatchingThread reviewThreads x None = Some t \<longrightarrow>
                ReplyToReviewComment (firstCommentId t)
                    (check_mark @ '' Explanation accepted. Resolving this comment.'')
                  \<in> set rest
                \<and> ResolveReviewThread (threadId t) \<in> set rest)"
      using ok bump_in_thread_effects resolve_in_thread_effects accept_in_thread_effects
      unfolding re by blast
  qed
qed

theorem persisting_never_inline_witness:
  "parseDiffForValidLines diff_db = Inr [''src/db.ts'' \<mapsto> {42, 41}]
   \<and> new_findings d_pers = None
   \<and> f_sql \<in> set (or_empty (persisting d_pers))
   \<and> findMatchingThread [thread_sql] (title f_sql) (Some (path f_sql)) = Some thread_sql
   \<and> ReplyToReviewComment (firstCommentId thread_sql) (bump_body f_sql)
       \<in> set (fst (postReview always_ok d_pers diff_db ''m'' True [thread_sql] []))
   \<and> (\<exists>b rest. fst (postReview always_ok d_pers diff_db ''m'' True [thread_sql] [])
                  = PostReview b [] # rest)"
proof -
  have vl: "parseDiffForValidLines diff_db = Inr [''src/db.ts'' \<mapsto> {42, 41}]"
    unfolding diff_db_def by (simp add: diff_eval)
  have nf: "new_findings d_pers = None"
    by code_simp
  have mem: "f_sql \<in> set (or_empty (persisting d_pers))"
    by code_simp
  have match: "findMatchingThread [thread_sql] (title f_sql) (Some (path f_sql)) = Some thread_sql"
    by code_simp
  from persisting_never_inline
         [where diff = diff_db and R = always_ok and data = d_pers and modelId = "''m''"
            and reviewThreads = "[thread_sql]" and tr = "[]", THEN mp, OF vl]
  obtain b rest where
    shape: "fst (postReview always_ok d_pers diff_db ''m'' True [thread_sql] [])
          = [] @ PostReview b (map inline_of (filter (placeable [''src/db.ts'' \<mapsto> {42, 41}])
                                 (or_empty (new_findings d_pers)))) # rest"
    and only: "\<forall>e \<in> set rest. is_thread_effect e"
    and routed: "always_ok [] (PostReview b (map inline_of
                    (filter (placeable [''src/db.ts'' \<mapsto> {42, 41}])
                       (or_empty (new_findings d_pers))))) = None \<longrightarrow>
             (\<forall>f \<in> set (or_empty (persisting d_pers)). \<forall>t.
                findMatchingThread [thread_sql] (title f) (Some (path f)) = Some t \<longrightarrow>
                ReplyToReviewComment (firstCommentId t) (bump_body f) \<in> set rest)
             \<and> (\<forall>x \<in> set (or_empty (resolved d_pers)). \<forall>t.
                findMatchingThread [thread_sql] x None = Some t \<longrightarrow>
                ResolveReviewThread (threadId t) \<in> set rest)
             \<and> (\<forall>x \<in> set (or_empty (accepted_explanations d_pers)). \<forall>t.
                findMatchingThread [thread_sql] x None = Some t \<longrightarrow>
                ReplyToReviewComment (firstCommentId t)
                    (check_mark @ '' Explanation accepted. Resolving this comment.'')
                  \<in> set rest
                \<and> ResolveReviewThread (threadId t) \<in> set rest)"
    by (elim exE conjE) (rule that; assumption)
  have "always_ok [] (PostReview b (map inline_of
                    (filter (placeable [''src/db.ts'' \<mapsto> {42, 41}])
                       (or_empty (new_findings d_pers))))) = None"
    by (simp add: always_ok_def)
  from routed[THEN mp, OF this, THEN conjunct1, THEN bspec, OF mem, THEN spec, THEN mp, OF match]
  have in_rest: "ReplyToReviewComment (firstCommentId thread_sql) (bump_body f_sql) \<in> set rest" .
  have none: "map inline_of (filter (placeable [''src/db.ts'' \<mapsto> {42, 41}])
                 (or_empty (new_findings d_pers))) = []"
    unfolding nf by (simp add: or_empty_def)
  from shape have shape': "fst (postReview always_ok d_pers diff_db ''m'' True [thread_sql] [])
          = PostReview b [] # rest"
    unfolding none by simp
  with in_rest have "ReplyToReviewComment (firstCommentId thread_sql) (bump_body f_sql)
       \<in> set (fst (postReview always_ok d_pers diff_db ''m'' True [thread_sql] []))"
    by simp
  moreover from shape' have "\<exists>b rest. fst (postReview always_ok d_pers diff_db ''m'' True
                  [thread_sql] []) = PostReview b [] # rest" by blast
  ultimately show ?thesis using vl nf mem match by (intro conjI)
qed

text \<open>
  Claim C3, as stated, fails. The review, whose body is the summary, is submitted first;
  the bump reply and the resolution come after it in the list of effects.
\<close>

theorem review_precedes_thread_effects_counterexample:
  "fst (postReview always_ok d_pers diff_db ''m'' True [thread_inj, thread_sql] [])
   = [PostReview (buildReviewBody d_pers True ''m'' []) [],
      ReplyToReviewComment 102 (bump_body f_sql),
      ResolveReviewThread ''T_inj'']"
  by code_simp

text \<open>
  Claim C3, amended. The effects of posting the review are, in this order: the review
  submission (summary body and inline comments), then replies and resolutions only; on a
  re-review whose submission succeeded these are the bumps, then the resolutions, then the
  accepted explanations. So every bump reply and every resolution follows the summary.
\<close>

theorem review_precedes_thread_effects:
  "\<exists>b cs rest.
     fst (postReview R data diff modelId isReReview reviewThreads tr)
       = tr @ PostReview b cs # rest
     \<and> (\<forall>e \<in> set rest. is_thread_effect e)
     \<and> (isReReview \<and> R tr (PostReview b cs) = None \<longrightarrow>
          rest = thread_effects data reviewThreads)"
proof -
  obtain vl where vl: "parseDiffForValidLines diff = Inr vl" using parse_total by blast
  from postReview_trace[OF vl, of R data modelId isReReview reviewThreads tr]
  obtain rest where
    "fst (postReview R data diff modelId isReReview reviewThreads tr)
       = tr @ review_effect data vl modelId isReReview # rest"
    "\<forall>e \<in> set rest. is_thread_effect e"
    "R tr (review_effect data vl modelId isReReview) = None \<longrightarrow>
       rest = (if isReReview then thread_effects data reviewThreads else [])"
    by auto
  then show ?thesis
    unfolding review_effect_def using thread_effects_only by fastforce
qed

theorem review_precedes_thread_effects_witness:
  "fst (postReview always_ok d_pers diff_db ''m'' True [thread_sql] [])
     = [PostReview (buildReviewBody d_pers True ''m'' []) [],
        ReplyToReviewComment 102 (bump_body f_sql),
        ResolveReviewThread ''T_sql'']
   \<and> is_thread_effect (ReplyToReviewComment 102 (bump_body f_sql))
   \<and> is_thread_effect (ResolveReviewThread ''T_sql'')"
proof -
  have run: "fst (postReview always_ok d_pers diff_db ''m'' True [thread_sql] [])
     = [PostReview (buildReviewBody d_pers True ''m'' []) [],
        ReplyToReviewComment 102 (bump_body f_sql),
        ResolveReviewThread ''T_sql'']"
    by code_simp
  from review_precedes_thread_effects
         [where R = always_ok and data = d_pers and diff = diff_db and modelId = "''m''"
            and isReReview = True and reviewThreads = "[thread_sql]" and tr = "[]"]
  obtain b cs rest where
    shape: "fst (postReview always_ok d_pers diff_db ''m'' True [thread_sql] [])
              = [] @ PostReview b cs # rest"
    and only: "\<forall>e \<in> set rest. is_thread_effect e"
    by blast
  from shape have "rest = [ReplyToReviewComment 102 (bump_body f_sql),
                           ResolveReviewThread ''T_sql'']"
    unfolding run by simp
  with only have "is_thread_effect (ReplyToReviewComment 102 (bump_body f_sql))"
    "is_thread_effect (ResolveReviewThread ''T_sql'')"
    by simp_all
  with run show ?thesis by (intro conjI)
qed

text \<open>
  Claim C5, as stated, fails. Nothing validates the priority. A finding of priority
  \<open>critical\<close> is posted inline under the yellow icon of \<open>other\<close>, counted in \<open>totalIssues\<close>
  and in neither of the two priority counts, and the run goes on to the label; no error is
  raised and no fallback notice is posted.
\<close>

theorem invalid_priority_counterexample:
  "priority f_crit = ''critical''
   \<and> main always_ok cfg_label (parse_to d_crit) raw_block diff_a ''m'' []
       = ([PostReview (buildReviewBody d_crit False ''m'' []) [inline_of f_crit],
           CreateLabel, AddLabel],
          Completed)
   \<and> comment_body (inline_of f_crit)
       = yellow_circle @ '' **Hardcoded secret**\<newline>\<newline>Move the key to the environment.''
   \<and> countIssues d_crit
       = \<lparr>highPriorityCount = 0, mediumPriorityCount = 0, lowPriorityCount = 0,
          totalIssues = 1, shouldBlock = False\<rparr>"
  by code_simp

text \<open>
  Claim C5, amended. A finding whose priority is neither \<open>must_fix\<close> nor \<open>other\<close> is not
  rejected, and no error is raised on its account: the run of every answer that parses
  starts with the review submission, and when the remote calls succeed it ends without
  entering the error path. Such a finding is rendered with the icon of \<open>other\<close>; it is
  counted in \<open>totalIssues\<close> and in neither \<open>highPriorityCount\<close> nor \<open>mediumPriorityCount\<close>.
  When it is considered for an inline comment (an entry of \<open>findings\<close> on a first review,
  of \<open>new_findings\<close> on a re-review) the review carries it as an inline comment or, in
  full, in its body; when it is listed under \<open>persisting\<close> on a re-review and matches a
  thread, it is bumped on that thread with the icon of \<open>other\<close>.
\<close>

theorem invalid_priority_not_rejected:
  "priority f \<noteq> ''must_fix'' \<and> priority f \<noteq> ''other'' \<longrightarrow>
     priorityIcon (priority f) = yellow_circle
     \<and> totalIssues (countIssues data) = length (all_findings data)
     \<and> highPriorityCount (countIssues data)
         = length (filter (\<lambda>g. priority g = ''must_fix'') (all_findings data))
     \<and> mediumPriorityCount (countIssues data)
         = length (filter (\<lambda>g. priority g = ''other'') (all_findings data))
     \<and> (f \<in> set (all_findings data) \<longrightarrow>
          highPriorityCount (countIssues data) + mediumPriorityCount (countIssues data)
            < totalIssues (countIssues data))
     \<and> (parseAnalysisJSON J raw = Some data \<longrightarrow>
          (\<exists>b cs rest out.
             main R cfg J raw diff modelId reviewThreads = (PostReview b cs # rest, out)))
     \<and> (parseAnalysisJSON J raw = Some data \<and> (\<forall>tr e. R tr e = None) \<longrightarrow>
          (\<exists>tr out. main_try R cfg J raw diff modelId reviewThreads = (tr, Inr out)
                   \<and> main R cfg J raw diff modelId reviewThreads = (tr, out)))
     \<and> (parseAnalysisJSON J raw = Some data
          \<and> f \<in> set (findingsForInline data (reviewThreads \<noteq> [])) \<longrightarrow>
          (\<exists>b cs rest out.
             main R cfg J raw diff modelId reviewThreads = (PostReview b cs # rest, out)
             \<and> (inline_of f \<in> set cs \<or> (\<exists>p q. b = p @ unplaceable_entry f @ q))))
     \<and> (parseAnalysisJSON J raw = Some data \<and> (\<forall>tr e. R tr e = None)
          \<and> reviewThreads \<noteq> [] \<and> f \<in> set (or_empty (persisting data))
          \<and> findMatchingThread reviewThreads (title f) (Some (path f)) = Some t \<longrightarrow>
          ReplyToReviewComment (firstCommentId t) (bump_body f)
            \<in> set (fst (main R cfg J raw diff modelId reviewThreads))
          \<and> (\<exists>r. bump_body f = yellow_circle @ r))"
proof (rule impI)
  assume inv: "priority f \<noteq> ''must_fix'' \<and> priority f \<noteq> ''other''"
  then have icon: "priorityIcon (priority f) = yellow_circle"
    by (simp add: priorityIcon_def)
  have tot: "totalIssues (countIssues data) = length (all_findings data)"
    by (simp add: countIssues_def)
  have hi: "highPriorityCount (countIssues data)
         = length (filter (\<lambda>g. priority g = ''must_fix'') (all_findings data))"
    by (simp add: countIssues_def)
  have me: "mediumPriorityCount (countIssues data)
         = length (filter (\<lambda>g. priority g = ''other'') (all_findings data))"
    by (simp add: countIssues_def)
  have cnt: "f \<in> set (all_findings data) \<longrightarrow>
          highPriorityCount (countIssues data) + mediumPriorityCount (countIssues data)
            < totalIssues (countIssues data)"
  proof
    assume m: "f \<in> set (all_findings data)"
    from filter_two_lt[OF m, of "\<lambda>f. priority f = ''must_fix''" "\<lambda>f. priority f = ''other''"]
      inv
    show "highPriorityCount (countIssues data) + mediumPriorityCount (countIssues data)
            < totalIssues (countIssues data)"
      by (simp add: countIssues_def)
  qed
  have starts: "parseAnalysisJSON J raw = Some data \<longrightarrow>
          (\<exists>b cs rest out.
             main R cfg J raw diff modelId reviewThreads = (PostReview b cs # rest, out))"
  proof
    assume p: "parseAnalysisJSON J raw = Some data"
    obtain vl where vl: "parseDiffForValidLines diff = Inr vl" using parse_total by blast
    from main_starts_with_review[OF p vl, of R cfg modelId reviewThreads]
    show "\<exists>b cs rest out.
             main R cfg J raw diff modelId reviewThreads = (PostReview b cs # rest, out)"
      unfolding review_effect_def by blast
  qed
  have noerr: "parseAnalysisJSON J raw = Some data \<and> (\<forall>tr e. R tr e = None) \<longrightarrow>
          (\<exists>tr out. main_try R cfg J raw diff modelId reviewThreads = (tr, Inr out)
                   \<and> main R cfg J raw diff modelId reviewThreads = (tr, out))"
    using main_all_ok_no_error[of J raw data R cfg diff modelId reviewThreads] by blast
  have run: "parseAnalysisJSON J raw = Some data
          \<and> f \<in> set (findingsForInline data (reviewThreads \<noteq> [])) \<longrightarrow>
          (\<exists>b cs rest out.
             main R cfg J raw diff modelId reviewThreads = (PostReview b cs # rest, out)
             \<and> (inline_of f \<in> set cs \<or> (\<exists>p q. b = p @ unplaceable_entry f @ q)))"
  proof (intro impI, elim conjE)
    assume p: "parseAnalysisJSON J raw = Some data"
      and m: "f \<in> set (findingsForInline data (reviewThreads \<noteq> []))"
    obtain vl where vl: "parseDiffForValidLines diff = Inr vl" using parse_total by blast
    from main_starts_with_review[OF p vl, of R cfg modelId reviewThreads]
    obtain rest out where
      r: "main R cfg J raw diff modelId reviewThreads =
            (review_effect data vl modelId (reviewThreads \<noteq> []) # rest, out)"
      by blast
    show "\<exists>b cs rest out.
             main R cfg J raw diff modelId reviewThreads = (PostReview b cs # rest, out)
             \<and> (inline_of f \<in> set cs \<or> (\<exists>p q. b = p @ unplaceable_entry f @ q))"
    proof (cases "placeable vl f")
      case True
      with m have "inline_of f \<in> set (map inline_of
            (filter (placeable vl) (findingsForInline data (reviewThreads \<noteq> []))))"
        by simp
      with r show ?thesis unfolding review_effect_def by blast
    next
      case False
      with m have "f \<in> set (filter (\<lambda>f. \<not> placeable vl f)
            (findingsForInline data (reviewThreads \<noteq> [])))"
        by simp
      from body_has_unplaceable[OF this, of data "reviewThreads \<noteq> []" modelId] r
      show ?thesis unfolding review_effect_def by blast
    qed
  qed
  have bump: "parseAnalysisJSON J raw = Some data \<and> (\<forall>tr e. R tr e = None)
          \<and> reviewThreads \<noteq> [] \<and> f \<in> set (or_empty (persisting data))
          \<and> findMatchingThread reviewThreads (title f) (Some (path f)) = Some t \<longrightarrow>
          ReplyToReviewComment (firstCommentId t) (bump_body f)
            \<in> set (fst (main R cfg J raw diff modelId reviewThreads))
          \<and> (\<exists>r. bump_body f = yellow_circle @ r)"
  proof (intro impI, elim conjE)
    assume a: "parseAnalysisJSON J raw = Some data" "\<forall>tr e. R tr e = None"
      "reviewThreads \<noteq> []" "f \<in> set (or_empty (persisting data))"
      "findMatchingThread reviewThreads (title f) (Some (path f)) = Some t"
    from main_bumps[OF a] bump_body_icon[of f]
    show "ReplyToReviewComment (firstCommentId t) (bump_body f)
            \<in> set (fst (main R cfg J raw diff modelId reviewThreads))
          \<and> (\<exists>r. bump_body f = yellow_circle @ r)"
      unfolding icon by (rule conjI)
  qed
  from icon tot hi me cnt starts noerr run bump
  show "priorityIcon (priority f) = yellow_circle
     \<and> totalIssues (countIssues data) = length (all_findings data)
     \<and> highPriorityCount (countIssues data)
         = length (filter (\<lambda>g. priority g = ''must_fix'') (all_findings data))
     \<and> mediumPriorityCount (countIssues data)
         = length (filter (\<lambda>g. priority g = ''other'') (all_findings data))
     \<and> (f \<in> set (all_findings data) \<longrightarrow>
          highPriorityCount (countIssues data) + mediumPriorityCount (countIssues data)
            < totalIssues (countIssues data))
     \<and> (parseAnalysisJSON J raw = Some data \<longrightarrow>
          (\<exists>b cs rest out.
             main R cfg J raw diff modelId reviewThreads = (PostReview b cs # rest, out)))
     \<and> (parseAnalysisJSON J raw = Some data \<and> (\<forall>tr e. R tr e = None) \<longrightarrow>
          (\<exists>tr out. main_try R cfg J raw diff modelId reviewThreads = (tr, Inr out)
                   \<and> main R cfg J raw diff modelId reviewThreads = (tr, out)))
     \<and> (parseAnalysisJSON J raw = Some data
          \<and> f \<in> set (findingsForInline data (reviewThreads \<noteq> [])) \<longrightarrow>
          (\<exists>b cs rest out.
             main R cfg J raw diff modelId reviewThreads = (PostReview b cs # rest, out)
             \<and> (inline_of f \<in> set cs \<or> (\<exists>p q. b = p @ unplaceable_entry f @ q))))
     \<and> (parseAnalysisJSON J raw = Some data \<and> (\<forall>tr e. R tr e = None)
          \<and> reviewThreads \<noteq> [] \<and> f \<in> set (or_empty (persisting data))
          \<and> findMatchingThread reviewThreads (title f) (Some (path f)) = Some t \<longrightarrow>
          ReplyToReviewComment (firstCommentId t) (bump_body f)
            \<in> set (fst (main R cfg J raw diff modelId reviewThreads))
          \<and> (\<exists>r. bump_body f = yellow_circle @ r))"
    by (intro conjI)
qed

text \<open>
  Runs of the theorem for C5: a finding of priority \<open>critical\<close> on a first review, and a
  persisting one on a re-review with its thread open.
\<close>

theorem invalid_priority_not_rejected_witness:
  "priority f_crit \<noteq> ''must_fix'' \<and> priority f_crit \<noteq> ''other''
   \<and> f_crit \<in> set (all_findings d_crit)
   \<and> priorityIcon (priority f_crit) = yellow_circle
   \<and> highPriorityCount (countIssues d_crit) + mediumPriorityCount (countIssues d_crit)
       < totalIssues (countIssues d_crit)
   \<and> parseAnalysisJSON (parse_to d_crit) raw_block = Some d_crit
   \<and> (\<forall>tr e. always_ok tr e = None)
   \<and> f_crit \<in> set (findingsForInline d_crit False)
   \<and> (\<exists>tr out. main_try always_ok cfg_label (parse_to d_crit) raw_block diff_a ''m'' []
                  = (tr, Inr out)
               \<and> main always_ok cfg_label (parse_to d_crit) raw_block diff_a ''m'' [] = (tr, out))
   \<and> (\<exists>b cs rest out.
         main always_ok cfg_label (parse_to d_crit) raw_block diff_a ''m'' []
           = (PostReview b cs # rest, out)
         \<and> (inline_of f_crit \<in> set cs \<or> (\<exists>p q. b = p @ unplaceable_entry f_crit @ q)))
   \<and> priority f_sql_crit \<noteq> ''must_fix'' \<and> priority f_sql_crit \<noteq> ''other''
   \<and> parseAnalysisJSON (parse_to d_pers_crit) raw_block = Some d_pers_crit
   \<and> f_sql_crit \<in> set (or_empty (persisting d_pers_crit))
   \<and> findMatchingThread [thread_sql] (title f_sql_crit) (Some (path f_sql_crit)) = Some thread_sql
   \<and> ReplyToReviewComment (firstCommentId thread_sql) (bump_body f_sql_crit)
       \<in> set (fst (main always_ok cfg_label (parse_to d_pers_crit) raw_block diff_db ''m''
                     [thread_sql]))
   \<and> (\<exists>r. bump_body f_sql_crit = yellow_circle @ r)"
proof -
  have inv: "priority f_crit \<noteq> ''must_fix'' \<and> priority f_crit \<noteq> ''other''"
    by code_simp
  have mem: "f_crit \<in> set (all_findings d_crit)"
    by code_simp
  have parsed: "parseAnalysisJSON (parse_to d_crit) raw_block = Some d_crit"
    by code_simp
  have ok: "\<forall>tr e. always_ok tr e = None"
    by (simp add: always_ok_def)
  have first: "(([]::thread list) \<noteq> []) = False"
    by simp
  have inl: "f_crit \<in> set (findingsForInline d_crit False)"
    by code_simp
  note T = invalid_priority_not_rejected
      [where f = f_crit and data = d_crit and J = "parse_to d_crit" and raw = raw_block
         and R = always_ok and cfg = cfg_label and diff = diff_a and modelId = "''m''"
         and reviewThreads = "[]", unfolded first, THEN mp, OF inv]
  from T[THEN conjunct1] have icon: "priorityIcon (priority f_crit) = yellow_circle" .
  from T[THEN conjunct2, THEN conjunct2, THEN conjunct2, THEN conjunct2, THEN conjunct1,
         THEN mp, OF mem]
  have cnt: "highPriorityCount (countIssues d_crit) + mediumPriorityCount (countIssues d_crit)
       < totalIssues (countIssues d_crit)" .
  from T[THEN conjunct2, THEN conjunct2, THEN conjunct2, THEN conjunct2, THEN conjunct2,
         THEN conjunct2, THEN conjunct1, THEN mp, OF conjI[OF parsed ok]]
  have noerr: "\<exists>tr out. main_try always_ok cfg_label (parse_to d_crit) raw_block diff_a ''m'' []
                  = (tr, Inr out)
               \<and> main always_ok cfg_label (parse_to d_crit) raw_block diff_a ''m'' [] = (tr, out)" .
  from T[THEN conjunct2, THEN conjunct2, THEN conjunct2, THEN conjunct2, THEN conjunct2,
         THEN conjunct2, THEN conjunct2, THEN conjunct1, THEN mp, OF conjI[OF parsed inl]]
  have carried: "\<exists>b cs rest out.
         main always_ok cfg_label (parse_to d_crit) raw_block diff_a ''m'' []
           = (PostReview b cs # rest, out)
         \<and> (inline_of f_crit \<in> set cs \<or> (\<exists>p q. b = p @ unplaceable_entry f_crit @ q))" .
  have inv2: "priority f_sql_crit \<noteq> ''must_fix'' \<and> priority f_sql_crit \<noteq> ''other''"
    by code_simp
  have parsed2: "parseAnalysisJSON (parse_to d_pers_crit) raw_block = Some d_pers_crit"
    by code_simp
  have pers: "f_sql_crit \<in> set (or_empty (persisting d_pers_crit))"
    by code_simp
  have match: "findMatchingThread [thread_sql] (title f_sql_crit) (Some (path f_sql_crit))
                 = Some thread_sql"
    by code_simp
  have re: "[thread_sql] \<noteq> []"
    by simp
  note P = invalid_priority_not_rejected
      [where f = f_sql_crit and data = d_pers_crit and J = "parse_to d_pers_crit"
         and raw = raw_block and R = always_ok and cfg = cfg_label and diff = diff_db
         and modelId = "''m''" and reviewThreads = "[thread_sql]" and t = thread_sql,
       THEN mp, OF inv2]
  note B = P[THEN conjunct2, THEN conjunct2, THEN conjunct2, THEN conjunct2, THEN conjunct2,
         THEN conjunct2, THEN conjunct2, THEN conjunct2, THEN mp,
         OF conjI[OF parsed2 conjI[OF ok conjI[OF re conjI[OF pers match]]]]]
  from B[THEN conjunct1]
  have bumped: "ReplyToReviewComment (firstCommentId thread_sql) (bump_body f_sql_crit)
       \<in> set (fst (main always_ok cfg_label (parse_to d_pers_crit) raw_block diff_db ''m''
                     [thread_sql]))" .
  from B[THEN conjunct2] have yellow: "\<exists>r. bump_body f_sql_crit = yellow_circle @ r" .
  from inv mem icon cnt parsed ok inl noerr carried inv2 parsed2 pers match bumped yellow
  show ?thesis by (intro conjI; (elim conjE)?; assumption?)
qed

text \<open>
  Claim C7, as stated, fails, in two ways. A \<open>must_fix\<close> finding on line 999, outside the
  anchors of its file, in an object of status \<open>APPROVED\<close>: the verdict \<open>shouldBlock\<close> is
  false, since it is the status field and nothing else. And a finding listed under
  \<open>persisting\<close>, on a line outside the anchors and with no matching thread: only the
  entries considered for inline comments are tested against the anchors and put into the
  body, so the review is submitted without inline comment and with a body that contains
  neither the title nor the body text of the finding.
\<close>

theorem unplaceable_finding_counterexample:
  "parseDiffForValidLines diff_a = Inr [''src/a.ts'' \<mapsto> {3, 2, 1}]
   \<and> f_far \<in> set (findingsForInline d_far_ok False)
   \<and> priority f_far = ''must_fix''
   \<and> line f_far \<notin> anchors [''src/a.ts'' \<mapsto> {3, 2, 1}] (path f_far)
   \<and> status d_far_ok = Some ''APPROVED''
   \<and> shouldBlock (countIssues d_far_ok) = False
   \<and> persisting d_gone = Some [f_gone]
   \<and> line f_gone \<notin> anchors [''src/a.ts'' \<mapsto> {3, 2, 1}] (path f_gone)
   \<and> findMatchingThread [thread_inj] (title f_gone) (Some (path f_gone)) = None
   \<and> fst (postReview always_ok d_gone diff_a ''m'' True [thread_inj] [])
       = [PostReview (buildReviewBody d_gone True ''m'' []) []]
   \<and> \<not> includes_str (buildReviewBody d_gone True ''m'' []) (title f_gone)
   \<and> \<not> includes_str (buildReviewBody d_gone True ''m'' []) ''Guard the write.''"
proof -
  have vl: "parseDiffForValidLines diff_a = Inr [''src/a.ts'' \<mapsto> {3, 2, 1}]"
    unfolding diff_a_def by (simp add: diff_eval)
  have m: "f_far \<in> set (findingsForInline d_far_ok False)"
    by code_simp
  have prio: "priority f_far = ''must_fix''"
    by code_simp
  have far: "line f_far \<notin> anchors [''src/a.ts'' \<mapsto> {3, 2, 1}] (path f_far)"
    by (simp add: f_far_def anchors_def)
  have st: "status d_far_ok = Some ''APPROVED''"
    by code_simp
  have sb: "shouldBlock (countIssues d_far_ok) = False"
    by code_simp
  have pers: "persisting d_gone = Some [f_gone]"
    by code_simp
  have gone: "line f_gone \<notin> anchors [''src/a.ts'' \<mapsto> {3, 2, 1}] (path f_gone)"
    by (simp add: f_gone_def anchors_def)
  have nomatch: "findMatchingThread [thread_inj] (title f_gone) (Some (path f_gone)) = None"
    by code_simp
  have run: "fst (postReview always_ok d_gone diff_a ''m'' True [thread_inj] [])
       = [PostReview (buildReviewBody d_gone True ''m'' []) []]"
    by code_simp
  have not_title: "\<not> includes_str (buildReviewBody d_gone True ''m'' []) (title f_gone)"
    by code_simp
  have not_body: "\<not> includes_str (buildReviewBody d_gone True ''m'' []) ''Guard the write.''"
    by code_simp
  from vl m prio far st sb pers gone nomatch run not_title not_body
  show ?thesis by (intro conjI)
qed

text \<open>
  Claim C7, amended. A finding considered for an inline comment (an entry of \<open>findings\<close> on
  a first review, of \<open>new_findings\<close> on a re-review) whose line is not an anchor of its path
  is not an error and is not dropped: the review is submitted, its body contains the entry
  of the finding with its full body (the title when there is no body), and no inline
  comment is made for it. Its placement plays no role in the counts: it is counted in
  \<open>totalIssues\<close>, and in \<open>highPriorityCount\<close> when it is \<open>must_fix\<close>, so the run takes the
  violations branch (exit code 1, or in label mode, when the remote calls succeed, the
  label). The verdict \<open>shouldBlock\<close> is the status field alone and the finding does not
  enter it.
\<close>

theorem unplaceable_finding_in_summary:
  "f \<in> set (findingsForInline data isReReview)
   \<and> parseDiffForValidLines diff = Inr vl
   \<and> line f \<notin> anchors vl (path f) \<longrightarrow>
     (\<exists>b cs rest.
        fst (postReview R data diff modelId isReReview reviewThreads tr)
          = tr @ PostReview b cs # rest
        \<and> (\<exists>p q. b = p @ unplaceable_entry f @ q)
        \<and> inline_of f \<notin> set cs
        \<and> (R tr (PostReview b cs) = None \<longrightarrow>
             snd (postReview R data diff modelId isReReview reviewThreads tr) = Inr ()))
     \<and> (\<exists>p q. unplaceable_entry f = p @ body_or_title f @ q)
     \<and> (\<forall>b. body f = Some b \<and> b \<noteq> [] \<longrightarrow> body_or_title f = b)
     \<and> f \<in> set (all_findings data)
     \<and> totalIssues (countIssues data) = length (all_findings data)
     \<and> highPriorityCount (countIssues data)
         = length (filter (\<lambda>g. priority g = ''must_fix'') (all_findings data))
     \<and> 0 < totalIssues (countIssues data)
     \<and> (priority f = ''must_fix'' \<longrightarrow> 0 < highPriorityCount (countIssues data))
     \<and> shouldBlock (countIssues data) = (status data = Some ''BLOCK_MERGE'')
     \<and> (parseAnalysisJSON J raw = Some data \<and> FAILURE_MODE cfg \<noteq> ''label'' \<longrightarrow>
          snd (main R cfg J raw diff modelId reviewThreads) = Exited 1)
     \<and> (parseAnalysisJSON J raw = Some data \<and> FAILURE_MODE cfg = ''label''
          \<and> (\<forall>tr e. R tr e = None) \<longrightarrow>
          snd (main R cfg J raw diff modelId reviewThreads) = Completed
          \<and> AddLabel \<in> set (fst (main R cfg J raw diff modelId reviewThreads))
          \<and> RemoveLabel \<notin> set (fst (main R cfg J raw diff modelId reviewThreads)))"
proof (intro impI, elim conjE)
  assume m: "f \<in> set (findingsForInline data isReReview)"
    and vl: "parseDiffForValidLines diff = Inr vl"
    and far: "line f \<notin> anchors vl (path f)"
  from far have np: "\<not> placeable vl f" by (simp add: placeable_anchors)
  from m np have un: "f \<in> set (filter (\<lambda>f. \<not> placeable vl f) (findingsForInline data isReReview))"
    by simp
  from postReview_trace[OF vl, of R data modelId isReReview reviewThreads tr]
  obtain rest where
    shape: "fst (postReview R data diff modelId isReReview reviewThreads tr)
       = tr @ review_effect data vl modelId isReReview # rest"
    and ok: "R tr (review_effect data vl modelId isReReview) = None \<longrightarrow>
       snd (postReview R data diff modelId isReReview reviewThreads tr) = Inr ()"
    by auto
  define B where "B = buildReviewBody data isReReview modelId
        (filter (\<lambda>f. \<not> placeable vl f) (findingsForInline data isReReview))"
  define CS where "CS = map inline_of (filter (placeable vl) (findingsForInline data isReReview))"
  have re: "review_effect data vl modelId isReReview = PostReview B CS"
    by (simp add: review_effect_def B_def CS_def)
  have p1: "fst (postReview R data diff modelId isReReview reviewThreads tr)
          = tr @ PostReview B CS # rest"
    using shape unfolding re .
  have p2: "\<exists>p q. B = p @ unplaceable_entry f @ q"
    unfolding B_def by (rule body_has_unplaceable[OF un])
  have p3: "inline_of f \<notin> set CS"
    unfolding CS_def by (rule inline_of_unplaced[OF np])
  have p4: "R tr (PostReview B CS) = None \<longrightarrow>
             snd (postReview R data diff modelId isReReview reviewThreads tr) = Inr ()"
    using ok unfolding re .
  from p2 obtain p q where pq: "B = p @ unplaceable_entry f @ q" by (elim exE)
  have posted: "\<exists>b cs rest.
        fst (postReview R data diff modelId isReReview reviewThreads tr)
          = tr @ PostReview b cs # rest
        \<and> (\<exists>p q. b = p @ unplaceable_entry f @ q)
        \<and> inline_of f \<notin> set cs
        \<and> (R tr (PostReview b cs) = None \<longrightarrow>
             snd (postReview R data diff modelId isReReview reviewThreads tr) = Inr ())"
    by (rule exI[of _ B], rule exI[of _ CS], rule exI[of _ rest], intro conjI,
        rule p1, rule exI[of _ p], rule exI[of _ q], rule pq, rule p3, rule p4)
  have full: "\<forall>b. body f = Some b \<and> b \<noteq> [] \<longrightarrow> body_or_title f = b"
    using body_or_title_body[of f] by blast
  from m have all: "f \<in> set (all_findings data)" by (rule findingsForInline_subset)
  then have ne: "all_findings data \<noteq> []" by auto
  have tot_eq: "totalIssues (countIssues data) = length (all_findings data)"
    by (simp add: countIssues_def)
  have high_eq: "highPriorityCount (countIssues data)
         = length (filter (\<lambda>g. priority g = ''must_fix'') (all_findings data))"
    by (simp add: countIssues_def)
  from ne have tot: "0 < totalIssues (countIssues data)" by (simp add: countIssues_def)
  have high: "priority f = ''must_fix'' \<longrightarrow> 0 < highPriorityCount (countIssues data)"
    using all by (auto simp: countIssues_def filter_empty_conv)
  have verdict: "shouldBlock (countIssues data) = (status data = Some ''BLOCK_MERGE'')"
    by (simp add: countIssues_def)
  have fails: "parseAnalysisJSON J raw = Some data \<and> FAILURE_MODE cfg \<noteq> ''label'' \<longrightarrow>
          snd (main R cfg J raw diff modelId reviewThreads) = Exited 1"
    using main_fail_mode[of J raw data cfg R diff modelId reviewThreads] ne by blast
  have labels: "parseAnalysisJSON J raw = Some data \<and> FAILURE_MODE cfg = ''label''
          \<and> (\<forall>tr e. R tr e = None) \<longrightarrow>
          snd (main R cfg J raw diff modelId reviewThreads) = Completed
          \<and> AddLabel \<in> set (fst (main R cfg J raw diff modelId reviewThreads))
          \<and> RemoveLabel \<notin> set (fst (main R cfg J raw diff modelId reviewThreads))"
  proof (intro impI, elim conjE)
    assume a: "parseAnalysisJSON J raw = Some data" "FAILURE_MODE cfg = ''label''"
      "\<forall>tr e. R tr e = None"
    from main_all_ok[OF a(1,3), of cfg diff modelId reviewThreads]
      main_label_effects[OF a(1,3), of cfg diff modelId reviewThreads] ne a(2)
    show "snd (main R cfg J raw diff modelId reviewThreads) = Completed
          \<and> AddLabel \<in> set (fst (main R cfg J raw diff modelId reviewThreads))
          \<and> RemoveLabel \<notin> set (fst (main R cfg J raw diff modelId reviewThreads))"
      by simp
  qed
  from posted entry_has_body[of f] full all tot_eq high_eq tot high verdict fails labels
  show "(\<exists>b cs rest.
        fst (postReview R data diff modelId isReReview reviewThreads tr)
          = tr @ PostReview b cs # rest
        \<and> (\<exists>p q. b = p @ unplaceable_entry f @ q)
        \<and> inline_of f \<notin> set cs
        \<and> (R tr (PostReview b cs) = None \<longrightarrow>
             snd (postReview R data diff modelId isReReview reviewThreads tr) = Inr ()))
     \<and> (\<exists>p q. unplaceable_entry f = p @ body_or_title f @ q)
     \<and> (\<forall>b. body f = Some b \<and> b \<noteq> [] \<longrightarrow> body_or_title f = b)
     \<and> f \<in> set (all_findings data)
     \<and> totalIssues (countIssues data) = length (all_findings data)
     \<and> highPriorityCount (countIssues data)
         = length (filter (\<lambda>g. priority g = ''must_fix'') (all_findings data))
     \<and> 0 < totalIssues (countIssues data)
     \<and> (priority f = ''must_fix'' \<longrightarrow> 0 < highPriorityCount (countIssues data))
     \<and> shouldBlock (countIssues data) = (status data = Some ''BLOCK_MERGE'')
     \<and> (parseAnalysisJSON J raw = Some data \<and> FAILURE_MODE cfg \<noteq> ''label'' \<longrightarrow>
          snd (main R cfg J raw diff modelId reviewThreads) = Exited 1)
     \<and> (parseAnalysisJSON J raw = Some data \<and> FAILURE_MODE cfg = ''label''
          \<and> (\<forall>tr e. R tr e = None) \<longrightarrow>
          snd (main R cfg J raw diff modelId reviewThreads) = Completed
          \<and> AddLabel \<in> set (fst (main R cfg J raw diff modelId reviewThreads))
          \<and> RemoveLabel \<notin> set (fst (main R cfg J raw diff modelId reviewThreads)))"
    by (intro conjI)
qed

text \<open>
  A run of the theorem for C7: a \<open>must_fix\<close> finding on line 999 of a file whose anchors are
  1, 2 and 3, in fail mode and in label mode.
\<close>

theorem unplaceable_finding_in_summary_witness:
  "f_far \<in> set (findingsForInline d_far False)
   \<and> parseDiffForValidLines diff_a = Inr [''src/a.ts'' \<mapsto> {3, 2, 1}]
   \<and> line f_far \<notin> anchors [''src/a.ts'' \<mapsto> {3, 2, 1}] (path f_far)
   \<and> priority f_far = ''must_fix''
   \<and> body f_far = Some ''Validate the request body.''
   \<and> body_or_title f_far = ''Validate the request body.''
   \<and> (\<exists>b p q rest. fst (postReview always_ok d_far diff_a ''m'' False [] [])
                      = PostReview b [] # rest
                    \<and> b = p @ unplaceable_entry f_far @ q)
   \<and> 0 < highPriorityCount (countIssues d_far)
   \<and> shouldBlock (countIssues d_far) = True
   \<and> snd (main always_ok cfg_fail (parse_to d_far) raw_block diff_a ''m'' []) = Exited 1
   \<and> snd (main always_ok cfg_label (parse_to d_far) raw_block diff_a ''m'' []) = Completed
   \<and> AddLabel \<in> set (fst (main always_ok cfg_label (parse_to d_far) raw_block diff_a ''m'' []))"
proof -
  have m: "f_far \<in> set (findingsForInline d_far False)"
    by code_simp
  have vl: "parseDiffForValidLines diff_a = Inr [''src/a.ts'' \<mapsto> {3, 2, 1}]"
    unfolding diff_a_def by (simp add: diff_eval)
  have far: "line f_far \<notin> anchors [''src/a.ts'' \<mapsto> {3, 2, 1}] (path f_far)"
    by (simp add: f_far_def anchors_def)
  have prio: "priority f_far = ''must_fix''"
    by code_simp
  have bd: "body f_far = Some ''Validate the request body.''"
    by code_simp
  have ne: "''Validate the request body.'' \<noteq> []"
    by simp
  have parsed: "parseAnalysisJSON (parse_to d_far) raw_block = Some d_far"
    by code_simp
  have ok: "\<forall>tr e. always_ok tr e = None"
    by (simp add: always_ok_def)
  have mode: "FAILURE_MODE cfg_fail \<noteq> ''label''"
    by code_simp
  have model: "FAILURE_MODE cfg_label = ''label''"
    by code_simp
  have st: "(status d_far = Some ''BLOCK_MERGE'') = True"
    by code_simp
  have run: "fst (postReview always_ok d_far diff_a ''m'' False [] [])
               = [PostReview (buildReviewBody d_far False ''m'' [f_far]) []]"
    by code_simp
  note T = unplaceable_finding_in_summary
      [where f = f_far and data = d_far and isReReview = False and diff = diff_a
         and vl = "[''src/a.ts'' \<mapsto> {3, 2, 1}]" and R = always_ok and modelId = "''m''"
         and reviewThreads = "[]" and tr = "[]" and J = "parse_to d_far" and raw = raw_block
         and cfg = cfg_fail,
       THEN mp, OF conjI[OF m conjI[OF vl far]]]
  note TL = unplaceable_finding_in_summary
      [where f = f_far and data = d_far and isReReview = False and diff = diff_a
         and vl = "[''src/a.ts'' \<mapsto> {3, 2, 1}]" and R = always_ok and modelId = "''m''"
         and reviewThreads = "[]" and tr = "[]" and J = "parse_to d_far" and raw = raw_block
         and cfg = cfg_label,
       THEN mp, OF conjI[OF m conjI[OF vl far]]]
  from T[THEN conjunct1] obtain b cs rest p q where
    shape: "fst (postReview always_ok d_far diff_a ''m'' False [] []) = [] @ PostReview b cs # rest"
    and inb: "b = p @ unplaceable_entry f_far @ q"
    by (elim exE conjE) (rule that; assumption)
  from shape have "cs = []" unfolding run by simp
  with shape have "fst (postReview always_ok d_far diff_a ''m'' False [] [])
                      = PostReview b [] # rest" by simp
  with inb have posted: "\<exists>b p q rest. fst (postReview always_ok d_far diff_a ''m'' False [] [])
                      = PostReview b [] # rest
                    \<and> b = p @ unplaceable_entry f_far @ q"
    by blast
  note rest7 = T[THEN conjunct2, THEN conjunct2]
  from rest7[THEN conjunct1, THEN spec, THEN mp, OF conjI[OF bd ne]]
  have full: "body_or_title f_far = ''Validate the request body.''" .
  note rest3 = rest7[THEN conjunct2, THEN conjunct2, THEN conjunct2, THEN conjunct2, THEN conjunct2]
  from rest3[THEN conjunct1, THEN mp, OF prio]
  have high: "0 < highPriorityCount (countIssues d_far)" .
  from rest3[THEN conjunct2, THEN conjunct1]
  have verdict: "shouldBlock (countIssues d_far) = True" unfolding st .
  from rest3[THEN conjunct2, THEN conjunct2, THEN conjunct1, THEN mp, OF conjI[OF parsed mode]]
  have fails: "snd (main always_ok cfg_fail (parse_to d_far) raw_block diff_a ''m'' []) = Exited 1" .
  note L = TL[THEN conjunct2, THEN conjunct2, THEN conjunct2,
         THEN conjunct2, THEN conjunct2, THEN conjunct2, THEN conjunct2, THEN conjunct2,
         THEN conjunct2, THEN conjunct2, THEN mp, OF conjI[OF parsed conjI[OF model ok]]]
  from L[THEN conjunct1]
  have l1: "snd (main always_ok cfg_label (parse_to d_far) raw_block diff_a ''m'' []) = Completed" .
  from L[THEN conjunct2, THEN conjunct1]
  have l2: "AddLabel \<in> set (fst (main always_ok cfg_label (parse_to d_far) raw_block diff_a ''m'' []))" .
  from m vl far prio bd full posted high verdict fails l1 l2 show ?thesis by (intro conjI)
qed

text \<open>
  Claim C8. When no JSON block is found in the model's answer, or the block does not
  parse, \<open>parseAnalysisJSON\<close> returns \<open>null\<close>; the run then makes one remote call only, the
  fallback notice, and exits with code 1: no review, no inline comment, no reply and no
  resolution.
\<close>

theorem unparseable_answer_is_fatal:
  "(json_block raw = None \<longrightarrow> parseAnalysisJSON J raw = None)
   \<and> (json_block raw = Some block \<and> J block = Inl err \<longrightarrow> parseAnalysisJSON J raw = None)
   \<and> (parseAnalysisJSON J raw = None \<longrightarrow>
        main R cfg J raw diff modelId reviewThreads =
          ([PostComment (replace_first ''[Model ID will be shown]'' ''Unknown''
              (fallback_notice ''Analysis did not return a parseable JSON response''))],
           Exited 1))"
  by (simp add: parseAnalysisJSON_def main_unparsed)

theorem unparseable_answer_is_fatal_witness:
  "json_block ''I could not review this.'' = None
   \<and> main always_ok cfg_fail (parse_to d_other) ''I could not review this.'' diff_a ''m''
        [thread_sql]
      = ([PostComment (fallback_notice ''Analysis did not return a parseable JSON response'')],
         Exited 1)"
proof -
  have nb: "json_block ''I could not review this.'' = None"
    by code_simp
  have same: "replace_first ''[Model ID will be shown]'' ''Unknown''
                (fallback_notice ''Analysis did not return a parseable JSON response'')
              = fallback_notice ''Analysis did not return a parseable JSON response''"
    by code_simp
  note T = unparseable_answer_is_fatal
      [where raw = "''I could not review this.''" and J = "parse_to d_other" and R = always_ok
         and cfg = cfg_fail and diff = diff_a and modelId = "''m''"
         and reviewThreads = "[thread_sql]"]
  from T[THEN conjunct1, THEN mp, OF nb]
  have "parseAnalysisJSON (parse_to d_other) ''I could not review this.'' = None" .
  from T[THEN conjunct2, THEN conjunct2, THEN mp, OF this]
  have "main always_ok cfg_fail (parse_to d_other) ''I could not review this.'' diff_a ''m''
          [thread_sql]
        = ([PostComment (fallback_notice ''Analysis did not return a parseable JSON response'')],
           Exited 1)"
    unfolding same .
  with nb show ?thesis by (intro conjI)
qed

end
